theory Spec2Isabelle
  imports Main "HOL-Library.Sublist"
begin

section \<open>JavaScript values\<close>

text \<open>
  Rule functions return \<^verbatim>\<open>unknown\<close>, rule options and custom configuration keys hold
  \<^verbatim>\<open>unknown\<close> values, and the engine inspects such values with \<^verbatim>\<open>typeof\<close>,
  \<^verbatim>\<open>in\<close>, property reads and \<^verbatim>\<open>||\<close>.  They are modelled by a datatype of plain
  JavaScript data.  Finite numbers are represented by integers (the code only asks whether
  a number is zero), \<^verbatim>\<open>NaN\<close> has a constructor of its own, and an object is the list of
  its own properties, the first binding of a key being the one that counts.
\<close>

datatype jsval =
    JUndefined
  | JNull
  | JBool bool
  | JNum int
  | JNaN
  | JStr string
  | JArr "jsval list"
  | JObj "(string \<times> jsval) list"

text \<open>Truthiness, as \<^verbatim>\<open>!x\<close> and \<^verbatim>\<open>x || y\<close> decide it.\<close>

fun truthy :: "jsval \<Rightarrow> bool" where
  "truthy JUndefined = False"
| "truthy JNull = False"
| "truthy (JBool b) = b"
| "truthy (JNum n) = (n \<noteq> 0)"
| "truthy JNaN = False"
| "truthy (JStr s) = (s \<noteq> [])"
| "truthy (JArr xs) = True"
| "truthy (JObj kvs) = True"

text \<open>\<^verbatim>\<open>a || b\<close>\<close>

definition js_or :: "jsval \<Rightarrow> jsval \<Rightarrow> jsval" where
  "js_or a b = (if truthy a then a else b)"

text \<open>\<^verbatim>\<open>typeof x\<close>\<close>

fun typeof :: "jsval \<Rightarrow> string" where
  "typeof JUndefined = ''undefined''"
| "typeof JNull = ''object''"
| "typeof (JBool b) = ''boolean''"
| "typeof (JNum n) = ''number''"
| "typeof JNaN = ''number''"
| "typeof (JStr s) = ''string''"
| "typeof (JArr xs) = ''object''"
| "typeof (JObj kvs) = ''object''"

text \<open>
  \<^verbatim>\<open>key in x\<close> for a key that is neither an array index, nor \<^verbatim>\<open>length\<close>, nor a member
  of \<^verbatim>\<open>Object.prototype\<close> or \<^verbatim>\<open>Array.prototype\<close> (the engine asks for \<^verbatim>\<open>message\<close>
  only): an array has no such key, a plain object has it when it is one of its own keys.
\<close>

fun js_in :: "string \<Rightarrow> jsval \<Rightarrow> bool" where
  "js_in k (JObj kvs) = (k \<in> set (map fst kvs))"
| "js_in k v = False"

text \<open>\<^verbatim>\<open>x.key\<close> for such a key: the own property, \<^verbatim>\<open>undefined\<close> when there is none.\<close>

fun js_get :: "jsval \<Rightarrow> string \<Rightarrow> jsval" where
  "js_get (JObj kvs) k = (case map_of kvs k of Some v \<Rightarrow> v | None \<Rightarrow> JUndefined)"
| "js_get v k = JUndefined"

section \<open>Interfaces\<close>

text \<open>\<^verbatim>\<open>enum IssueSeverity\<close> is a string enum; \<open>severityValue\<close> gives the string.\<close>

datatype IssueSeverity = ERROR | WARNING | INFO | HINT

fun severityValue :: "IssueSeverity \<Rightarrow> string" where
  "severityValue ERROR = ''error''"
| "severityValue WARNING = ''warning''"
| "severityValue INFO = ''info''"
| "severityValue HINT = ''hint''"

datatype RuleCategory = STRUCTURAL | DOCUMENTATION | REST | GOVERNANCE | SECURITY

type_synonym RuleOptions = "string \<Rightarrow> jsval option"

text \<open>
  A rule function receives the document and the options (\<^verbatim>\<open>undefined\<close> when the rule
  has none) and returns any value, or throws: \<open>Inl msg\<close> is a throw whose message, as the
  engine's \<^verbatim>\<open>catch\<close> computes it, is \<open>msg\<close>.
\<close>

type_synonym RuleFunction = "jsval \<Rightarrow> RuleOptions option \<Rightarrow> string + jsval"

record Rule =
  rule_id :: string
  rule_name :: string
  rule_description :: string
  rule_severity :: IssueSeverity
  rule_category :: RuleCategory
  rule_enabled :: "bool option"
  rule_fixable :: "bool option"
  rule_fn :: RuleFunction
  rule_options :: "RuleOptions option"

record RuleConfig =
  rc_severity :: "IssueSeverity option"
  rc_enabled :: "bool option"
  rc_options :: "RuleOptions option"

text \<open>A value of a \<^verbatim>\<open>rules\<close> object: \<^verbatim>\<open>boolean | RuleConfig\<close>.\<close>

datatype RuleSetting = Flag bool | Override RuleConfig

record ValidationIssue =
  issue_ruleId :: jsval
  issue_ruleDescription :: jsval
  issue_severity :: jsval
  issue_path :: jsval
  issue_line :: jsval
  issue_column :: jsval
  issue_message :: jsval
  issue_suggestion :: jsval
  issue_category :: jsval

section \<open>RuleRegistry\<close>

text \<open>
  The registry's \<^verbatim>\<open>Map\<close>s: \<open>reg_rules\<close> and \<open>reg_ruleCategories\<close> in insertion order
  (\<^verbatim>\<open>getAllIds\<close> and \<^verbatim>\<open>getAllCategories\<close> read the keys in that order), \<open>reg_overrides\<close>
  as a map, since it is only read with \<^verbatim>\<open>get\<close>.  Logging is left out throughout.
\<close>

record RuleRegistry =
  reg_rules :: "(string \<times> Rule) list"
  reg_ruleCategories :: "(RuleCategory \<times> string list) list"
  reg_overrides :: "string \<Rightarrow> RuleConfig option"

definition createRuleRegistry :: RuleRegistry where
  "createRuleRegistry = \<lparr>reg_rules = [], reg_ruleCategories = [], reg_overrides = Map.empty\<rparr>"

definition quoted :: "string \<Rightarrow> string" where
  "quoted s = [CHR 0x22] @ s @ [CHR 0x22]"

definition register :: "RuleRegistry \<Rightarrow> Rule \<Rightarrow> string + RuleRegistry" where
  "register reg rule =
     (if map_of (reg_rules reg) (rule_id rule) \<noteq> None
      then Inl (''Rule with ID '' @ quoted (rule_id rule) @ '' is already registered'')
      else
        let cats = (if map_of (reg_ruleCategories reg) (rule_category rule) = None
                    then reg_ruleCategories reg @ [(rule_category rule, [])]
                    else reg_ruleCategories reg)
        in Inr (reg\<lparr>reg_rules := reg_rules reg @ [(rule_id rule, rule)],
                    reg_ruleCategories :=
                      map (\<lambda>(c, ids). if c = rule_category rule
                                       then (c, if rule_id rule \<in> set ids then ids
                                                 else ids @ [rule_id rule])
                                       else (c, ids)) cats\<rparr>))"

definition get_rule :: "RuleRegistry \<Rightarrow> string \<Rightarrow> Rule option" where
  "get_rule reg ruleId = map_of (reg_rules reg) ruleId"

definition getAllIds :: "RuleRegistry \<Rightarrow> string list" where
  "getAllIds reg = map fst (reg_rules reg)"

definition getCount :: "RuleRegistry \<Rightarrow> nat" where
  "getCount reg = length (reg_rules reg)"

text \<open>One iteration of the loop of \<^verbatim>\<open>applyOverrides\<close>, and the loop over the entries.\<close>

definition setOverride :: "RuleRegistry \<Rightarrow> string \<times> RuleSetting \<Rightarrow> RuleRegistry" where
  "setOverride reg entry =
     (case entry of (ruleId, config) \<Rightarrow>
        (case config of
           Flag b \<Rightarrow>
             reg\<lparr>reg_overrides := (reg_overrides reg)
                    (ruleId \<mapsto> \<lparr>rc_severity = None, rc_enabled = Some b, rc_options = None\<rparr>)\<rparr>
         | Override c \<Rightarrow> reg\<lparr>reg_overrides := (reg_overrides reg)(ruleId \<mapsto> c)\<rparr>))"

definition applyOverrides :: "RuleRegistry \<Rightarrow> (string \<times> RuleSetting) list \<Rightarrow> RuleRegistry" where
  "applyOverrides reg ruleConfigs = foldl setOverride reg ruleConfigs"

text \<open>\<^verbatim>\<open>{...o}\<close> of an optional object: nothing when it is \<^verbatim>\<open>undefined\<close>.\<close>

definition spread :: "(string \<Rightarrow> 'v option) option \<Rightarrow> (string \<Rightarrow> 'v option)" where
  "spread obj = (case obj of None \<Rightarrow> Map.empty | Some m \<Rightarrow> m)"

definition getEffectiveRule :: "RuleRegistry \<Rightarrow> string \<Rightarrow> IssueSeverity option \<Rightarrow> Rule option" where
  "getEffectiveRule reg ruleId defaultSeverity =
     (case map_of (reg_rules reg) ruleId of
        None \<Rightarrow> None
      | Some rule \<Rightarrow>
          (case reg_overrides reg ruleId of
             None \<Rightarrow> Some rule
           | Some override \<Rightarrow>
               Some (rule\<lparr>
                 rule_enabled :=
                   (case rc_enabled override of Some b \<Rightarrow> Some b | None \<Rightarrow> rule_enabled rule),
                 rule_severity :=
                   (case rc_severity override of
                      Some s \<Rightarrow> s
                    | None \<Rightarrow> (case defaultSeverity of Some d \<Rightarrow> d | None \<Rightarrow> rule_severity rule)),
                 rule_options :=
                   Some (spread (rule_options rule) ++ spread (rc_options override))\<rparr>)))"

definition isEnabled :: "RuleRegistry \<Rightarrow> string \<Rightarrow> bool" where
  "isEnabled reg ruleId =
     (case getEffectiveRule reg ruleId None of
        None \<Rightarrow> False
      | Some rule \<Rightarrow> rule_enabled rule \<noteq> Some False)"

section \<open>RuleEngine\<close>

text \<open>
  \<open>executionTime\<close> and \<open>totalTime\<close> are differences of two readings of
  \<^verbatim>\<open>performance.now()\<close>; wall-clock time is outside the model, so the statistics carry
  every field but the times.
\<close>

record RuleExecutionStats =
  stats_ruleId :: string
  stats_executed :: bool
  stats_issuesFound :: nat
  stats_error :: "string option"

text \<open>The callback given to \<^verbatim>\<open>results.map\<close> in \<^verbatim>\<open>normalizeResults\<close>; \<open>None\<close> is \<^verbatim>\<open>null\<close>.\<close>

definition normalizeResult ::
  "string \<Rightarrow> string \<Rightarrow> IssueSeverity \<Rightarrow> jsval \<Rightarrow> ValidationIssue option" where
  "normalizeResult ruleId ruleName severity result =
     (if \<not> truthy result \<or> typeof result \<noteq> ''object'' then None
      else if \<not> js_in ''message'' result then None
      else Some \<lparr>
        issue_ruleId = js_or (js_get result ''ruleId'') (JStr ruleId),
        issue_ruleDescription = js_or (js_get result ''ruleDescription'') (JStr ruleName),
        issue_severity = js_or (js_get result ''severity'') (JStr (severityValue severity)),
        issue_path = js_or (js_get result ''path'') (JStr ''root''),
        issue_line = js_or (js_get result ''line'') JUndefined,
        issue_column = js_or (js_get result ''column'') JUndefined,
        issue_message = js_or (js_get result ''message'') (JStr []),
        issue_suggestion = js_or (js_get result ''suggestion'') JUndefined,
        issue_category = js_or (js_get result ''category'') JUndefined\<rparr>)"

definition normalizeResults ::
  "jsval \<Rightarrow> string \<Rightarrow> string \<Rightarrow> IssueSeverity \<Rightarrow> ValidationIssue list" where
  "normalizeResults results ruleId ruleName severity =
     (case results of
        JArr xs \<Rightarrow>
          map the (filter (\<lambda>issue. issue \<noteq> None)
                     (map (normalizeResult ruleId ruleName severity) xs))
      | _ \<Rightarrow> [])"

definition initialStats :: "string \<Rightarrow> RuleExecutionStats" where
  "initialStats ruleId =
     \<lparr>stats_ruleId = ruleId, stats_executed = False, stats_issuesFound = 0, stats_error = None\<rparr>"

text \<open>
  \<^verbatim>\<open>executeRule\<close>.  The body is one \<^verbatim>\<open>try\<close> block; the only call in it that can
  throw is the rule function, whose throw (\<open>Inl\<close>) is the \<^verbatim>\<open>catch\<close> branch.
\<close>

definition executeRule ::
  "RuleRegistry \<Rightarrow> string \<Rightarrow> jsval \<Rightarrow> IssueSeverity option
     \<Rightarrow> ValidationIssue list \<times> RuleExecutionStats" where
  "executeRule reg ruleId spec defaultSeverity =
     (let stats = initialStats ruleId in
      case get_rule reg ruleId of
        None \<Rightarrow>
          ([], stats\<lparr>stats_error := Some (''Rule '' @ quoted ruleId @ '' not found'')\<rparr>)
      | Some rule \<Rightarrow>
          if \<not> isEnabled reg ruleId then ([], stats)
          else
            (case getEffectiveRule reg ruleId defaultSeverity of
               None \<Rightarrow>
                 ([], stats\<lparr>stats_error :=
                        Some (''Could not resolve rule configuration for '' @ quoted ruleId)\<rparr>)
             | Some effectiveRule \<Rightarrow>
                 (case rule_fn effectiveRule spec (rule_options effectiveRule) of
                    Inl message \<Rightarrow> ([], stats\<lparr>stats_error := Some message\<rparr>)
                  | Inr rawResults \<Rightarrow>
                      let issues = normalizeResults rawResults ruleId (rule_name rule)
                                     (rule_severity effectiveRule)
                      in (issues, stats\<lparr>stats_executed := True,
                                        stats_issuesFound := length issues\<rparr>))))"

text \<open>
  \<^verbatim>\<open>executeAll\<close>: the \<^verbatim>\<open>for\<close> loop pushes each rule's issues and statistics onto the
  two accumulators.  \<^verbatim>\<open>ruleIds || getAllIds()\<close> takes the given array whenever one is
  given (an empty array is truthy).
\<close>

definition executeStep ::
  "RuleRegistry \<Rightarrow> jsval \<Rightarrow> IssueSeverity option
     \<Rightarrow> ValidationIssue list \<times> RuleExecutionStats list \<Rightarrow> string
     \<Rightarrow> ValidationIssue list \<times> RuleExecutionStats list" where
  "executeStep reg spec defaultSeverity acc ruleId =
     (case acc of (allIssues, executionStats) \<Rightarrow>
        (case executeRule reg ruleId spec defaultSeverity of
           (issues, stats) \<Rightarrow> (allIssues @ issues, executionStats @ [stats])))"

definition executeAll ::
  "RuleRegistry \<Rightarrow> jsval \<Rightarrow> string list option \<Rightarrow> IssueSeverity option
     \<Rightarrow> ValidationIssue list \<times> RuleExecutionStats list" where
  "executeAll reg spec ruleIds defaultSeverity =
     (let toExecute = (case ruleIds of Some ids \<Rightarrow> ids | None \<Rightarrow> getAllIds reg)
      in foldl (executeStep reg spec defaultSeverity) ([], []) toExecute)"

section \<open>Configuration: interfaces and defaults\<close>

text \<open>\<^verbatim>\<open>string | string[]\<close>\<close>

datatype StringOrArray = Single string | Several "string list"

record FileConfig =
  fc_pattern :: string
  fc_ignore :: "string list option"
  fc_rules :: "StringOrArray option"

record RulesetDefinition =
  rs_rules :: "(string \<Rightarrow> RuleSetting option) option"
  rs_extends :: "StringOrArray option"
  rs_defaultSeverity :: "IssueSeverity option"

text \<open>
  What a \<^verbatim>\<open>rulesets\<close> object holds under a key.  The type says \<^verbatim>\<open>RulesetDefinition\<close>;
  the one other value that the code can put there is a member that \<^verbatim>\<open>getPresetRuleset\<close>
  read from \<^verbatim>\<open>Object.prototype\<close> (see there), kept by its name.
\<close>

datatype RulesetValue = Ruleset RulesetDefinition | PrototypeMember string

text \<open>
  \<^verbatim>\<open>ApiGuardianConfig\<close>: the seven declared optional fields, and \<open>cfg_custom\<close> for the
  keys admitted by the index signature \<^verbatim>\<open>[key: string]: unknown\<close>.
\<close>

record ApiGuardianConfig =
  cfg_extends :: "StringOrArray option"
  cfg_rules :: "(string \<Rightarrow> RuleSetting option) option"
  cfg_rulesets :: "(string \<Rightarrow> RulesetValue option) option"
  cfg_files :: "FileConfig list option"
  cfg_defaultSeverity :: "IssueSeverity option"
  cfg_failOnWarnings :: "bool option"
  cfg_showInfo :: "bool option"
  cfg_custom :: "string \<Rightarrow> jsval option"

text \<open>The object literal \<^verbatim>\<open>{}\<close>.\<close>

definition emptyConfig :: ApiGuardianConfig where
  "emptyConfig =
     \<lparr>cfg_extends = None, cfg_rules = None, cfg_rulesets = None, cfg_files = None,
      cfg_defaultSeverity = None, cfg_failOnWarnings = None, cfg_showInfo = None,
      cfg_custom = Map.empty\<rparr>"

text \<open>The literal \<^verbatim>\<open>{ enabled: true, severity: s }\<close> of the preset tables.\<close>

definition enabledAt :: "IssueSeverity \<Rightarrow> RuleSetting" where
  "enabledAt s = Override \<lparr>rc_severity = Some s, rc_enabled = Some True, rc_options = None\<rparr>"

definition STRICT_RULESET :: RulesetDefinition where
  "STRICT_RULESET =
     \<lparr>rs_rules = Some (map_of
        [(''paths-required'', Flag True),
         (''info-required'', Flag True),
         (''operation-id-required'', Flag True),
         (''operation-tags-required'', Flag True),
         (''operation-description-required'', Flag True),
         (''schema-properties-required'', Flag True),
         (''operation-description'', enabledAt ERROR),
         (''operation-summary'', enabledAt WARNING),
         (''parameter-description'', enabledAt WARNING),
         (''schema-description'', enabledAt WARNING),
         (''path-naming-convention'',
            Override \<lparr>rc_severity = Some ERROR, rc_enabled = Some True,
                      rc_options = Some (map_of [(''casing'', JStr ''kebab'')])\<rparr>),
         (''http-status-codes'', enabledAt ERROR),
         (''success-response-required'', enabledAt ERROR),
         (''error-response-required'', enabledAt ERROR),
         (''version-format'', enabledAt ERROR),
         (''contact-info-required'', enabledAt WARNING),
         (''no-api-key-in-url'', enabledAt ERROR),
         (''require-correlation-id'', enabledAt ERROR)]),
      rs_extends = None,
      rs_defaultSeverity = Some ERROR\<rparr>"

definition STANDARD_RULESET :: RulesetDefinition where
  "STANDARD_RULESET =
     \<lparr>rs_rules = Some (map_of
        [(''operation-summary'', enabledAt INFO),
         (''parameter-description'', enabledAt INFO),
         (''schema-description'', enabledAt INFO),
         (''contact-info-required'', enabledAt INFO)]),
      rs_extends = Some (Single ''strict''),
      rs_defaultSeverity = Some WARNING\<rparr>"

definition LENIENT_RULESET :: RulesetDefinition where
  "LENIENT_RULESET =
     \<lparr>rs_rules = Some (map_of
        [(''paths-required'', Flag True),
         (''info-required'', Flag True),
         (''operation-tags-required'', Flag True),
         (''operation-description-required'', Flag True),
         (''http-status-codes'', enabledAt WARNING),
         (''success-response-required'', enabledAt WARNING),
         (''no-api-key-in-url'', enabledAt ERROR)]),
      rs_extends = None,
      rs_defaultSeverity = Some WARNING\<rparr>"

text \<open>The own properties of the object literal in \<^verbatim>\<open>getPresetRuleset\<close>.\<close>

definition presetTable :: "(string \<times> RulesetDefinition) list" where
  "presetTable =
     [(''strict'', STRICT_RULESET), (''standard'', STANDARD_RULESET),
      (''lenient'', LENIENT_RULESET)]"

definition DEFAULT_CONFIG :: ApiGuardianConfig where
  "DEFAULT_CONFIG =
     \<lparr>cfg_extends = None,
      cfg_rules = None,
      cfg_rulesets = Some (map_of
        [(''strict'', Ruleset STRICT_RULESET), (''standard'', Ruleset STANDARD_RULESET),
         (''lenient'', Ruleset LENIENT_RULESET)]),
      cfg_files = Some
        [\<lparr>fc_pattern = ''openapi.{json,yaml,yml}'', fc_ignore = None, fc_rules = None\<rparr>,
         \<lparr>fc_pattern = ''api/**/*.{json,yaml,yml}'',
          fc_ignore = Some [''**/node_modules/**'', ''**/.git/**''], fc_rules = None\<rparr>],
      cfg_defaultSeverity = Some WARNING,
      cfg_failOnWarnings = Some False,
      cfg_showInfo = Some True,
      cfg_custom = Map.empty\<rparr>"

text \<open>
  The names that every object literal inherits from \<^verbatim>\<open>Object.prototype\<close>.  A property
  read \<^verbatim>\<open>obj[key]\<close> finds an own property first and an inherited one otherwise, and each of
  these inherited values is a function or an object, hence neither \<^verbatim>\<open>undefined\<close> nor
  \<^verbatim>\<open>null\<close>, and truthy.
\<close>

definition objectPrototypeKeys :: "string list" where
  "objectPrototypeKeys =
     [''constructor'', ''__proto__'', ''hasOwnProperty'', ''isPrototypeOf'',
      ''propertyIsEnumerable'', ''toLocaleString'', ''toString'', ''valueOf'',
      ''__defineGetter__'', ''__defineSetter__'', ''__lookupGetter__'', ''__lookupSetter__'']"

text \<open>
  \<^verbatim>\<open>getPresetRuleset\<close>: \<^verbatim>\<open>rulesets[level] ?? null\<close> on the object literal with the three
  presets; \<open>None\<close> is \<^verbatim>\<open>null\<close>.
\<close>

definition getPresetRuleset :: "string \<Rightarrow> RulesetValue option" where
  "getPresetRuleset level =
     (case map_of presetTable level of
        Some ruleset \<Rightarrow> Some (Ruleset ruleset)
      | None \<Rightarrow>
          if level \<in> set objectPrototypeKeys then Some (PrototypeMember level) else None)"

section \<open>ConfigParser\<close>

text \<open>A thrown \<^verbatim>\<open>ConfigError\<close>: its message, its \<^verbatim>\<open>configDetails\<close> and its suggestion.\<close>

record ConfigError =
  ce_message :: string
  ce_property :: "string option"
  ce_value :: "string option"
  ce_expectedFormat :: "string option"
  ce_constraint :: "string option"
  ce_suggestion :: "string option"

text \<open>
  \<^verbatim>\<open>mergeConfigs\<close>.  The result is an object literal with the six merged fields followed
  by the child's entries whose key is none of the seven fixed names, so it has no
  \<^verbatim>\<open>extends\<close> and none of the parent's custom keys.  The entries are collected with
  \<^verbatim>\<open>acc[key] = value\<close>; for the key \<^verbatim>\<open>__proto__\<close> that assignment goes to the
  prototype setter and creates no property, so a child's own key of that name is not in the
  result.
\<close>

definition fixedKeys :: "string list" where
  "fixedKeys =
     [''defaultSeverity'', ''failOnWarnings'', ''showInfo'', ''files'', ''rules'', ''rulesets'',
      ''extends'']"

definition mergeConfigs :: "ApiGuardianConfig \<Rightarrow> ApiGuardianConfig \<Rightarrow> ApiGuardianConfig" where
  "mergeConfigs parent child =
     \<lparr>cfg_extends = None,
      cfg_rules = Some (spread (cfg_rules parent) ++ spread (cfg_rules child)),
      cfg_rulesets = Some (spread (cfg_rulesets parent) ++ spread (cfg_rulesets child)),
      cfg_files = (case cfg_files child of Some f \<Rightarrow> Some f | None \<Rightarrow> cfg_files parent),
      cfg_defaultSeverity =
        (case cfg_defaultSeverity child of Some s \<Rightarrow> Some s | None \<Rightarrow> cfg_defaultSeverity parent),
      cfg_failOnWarnings =
        (case cfg_failOnWarnings child of Some b \<Rightarrow> Some b | None \<Rightarrow> cfg_failOnWarnings parent),
      cfg_showInfo =
        (case cfg_showInfo child of Some b \<Rightarrow> Some b | None \<Rightarrow> cfg_showInfo parent),
      cfg_custom =
        (\<lambda>key. if key \<in> set fixedKeys \<or> key = ''__proto__'' then None
               else cfg_custom child key)\<rparr>"

text \<open>\<^verbatim>\<open>s.split(c)\<close> for a one-character separator: never empty.\<close>

fun splitOn :: "char \<Rightarrow> string \<Rightarrow> string list" where
  "splitOn c [] = [[]]"
| "splitOn c (x # xs) =
     (if x = c then [] # splitOn c xs
      else (case splitOn c xs of w # ws \<Rightarrow> (x # w) # ws | [] \<Rightarrow> [[x]]))"

text \<open>An element of an array destructuring: \<^verbatim>\<open>undefined\<close> past the end.\<close>

definition arrayAt :: "'a list \<Rightarrow> nat \<Rightarrow> 'a option" where
  "arrayAt xs i = (if i < length xs then Some (xs ! i) else None)"

text \<open>
  A possibly undefined string inside a template literal or as a property key:
  \<^verbatim>\<open>undefined\<close> becomes the text \<^verbatim>\<open>undefined\<close>.
\<close>

definition toText :: "string option \<Rightarrow> string" where
  "toText s = (case s of Some t \<Rightarrow> t | None \<Rightarrow> ''undefined'')"

text \<open>\<^verbatim>\<open>ext.includes('/') || ext.includes('\\')\<close>\<close>

definition isFileReference :: "string \<Rightarrow> bool" where
  "isFileReference ext = (CHR ''/'' \<in> set ext \<or> CHR 0x5C \<in> set ext)"

definition unknownPresetError :: "string \<Rightarrow> ConfigError" where
  "unknownPresetError ext =
     \<lparr>ce_message = ''Unknown preset ruleset: '' @ ext,
      ce_property = Some ''extends'',
      ce_value = Some ext,
      ce_expectedFormat = Some ''api-guardian:strict|standard|lenient or valid file path'',
      ce_constraint = Some ''must reference valid preset or file'',
      ce_suggestion =
        Some ''Use one of: api-guardian:strict, api-guardian:standard, api-guardian:lenient''\<rparr>"

definition unknownNamespaceError :: "string option \<Rightarrow> string \<Rightarrow> ConfigError" where
  "unknownNamespaceError namespace ext =
     \<lparr>ce_message = ''Unknown extends namespace: '' @ toText namespace,
      ce_property = Some ''extends'',
      ce_value = Some ext,
      ce_expectedFormat = Some ''api-guardian:preset or spectral:preset'',
      ce_constraint = Some ''must use known namespace'',
      ce_suggestion =
        Some ''Use api-guardian:strict, api-guardian:standard, or api-guardian:lenient''\<rparr>"

text \<open>
  The outcome of a call that may throw a \<^verbatim>\<open>ConfigError\<close> and, through the recursion on
  file references, may fail to return: \<open>None\<close> when the recursion is deeper than the fuel,
  \<open>Some (Inl e)\<close> for the throw, \<open>Some (Inr x)\<close> for the result.
\<close>

type_synonym 'a outcome = "(ConfigError + 'a) option"

text \<open>
  The body of the \<^verbatim>\<open>for\<close> loop of \<^verbatim>\<open>resolveExtends\<close> up to the merge: the configuration
  \<^verbatim>\<open>extConfig\<close> of one entry, \<open>Inr None\<close> for \<^verbatim>\<open>continue\<close>.  \<open>recur\<close> is the recursive
  call.  Two things come from outside the repository and are parameters: \<open>loadConfig\<close>,
  the result of reading, parsing and validating the file at a path (or the
  \<^verbatim>\<open>ConfigError\<close> thrown), and \<open>resolvePath base ext\<close>, which stands for
  \<^verbatim>\<open>path.resolve(path.dirname(base), ext)\<close>.
\<close>

definition resolveEntry ::
  "(ApiGuardianConfig \<Rightarrow> string \<Rightarrow> ApiGuardianConfig outcome)
     \<Rightarrow> (string \<Rightarrow> ConfigError + ApiGuardianConfig) \<Rightarrow> (string \<Rightarrow> string \<Rightarrow> string)
     \<Rightarrow> string \<Rightarrow> string \<Rightarrow> ApiGuardianConfig option outcome" where
  "resolveEntry recur loadConfig resolvePath basePath ext =
     (if isFileReference ext then
        (let extPath = resolvePath basePath ext in
         case loadConfig extPath of
           Inl e \<Rightarrow> Some (Inl e)
         | Inr loadedConfig \<Rightarrow>
             (case recur loadedConfig extPath of
                None \<Rightarrow> None
              | Some (Inl e) \<Rightarrow> Some (Inl e)
              | Some (Inr extConfig) \<Rightarrow> Some (Inr (Some extConfig))))
      else
        (let parts = splitOn (CHR '':'') ext;
             namespace = arrayAt parts 0;
             preset = arrayAt parts 1
         in if namespace = Some ''api-guardian'' \<or> namespace = Some ''preset'' then
              (case getPresetRuleset (toText preset) of
                 None \<Rightarrow> Some (Inl (unknownPresetError ext))
               | Some ruleset \<Rightarrow>
                   Some (Inr (Some (emptyConfig\<lparr>cfg_rulesets :=
                                      Some (map_of [(toText preset, ruleset)])\<rparr>))))
            else if namespace = Some ''spectral'' then Some (Inr None)
            else Some (Inl (unknownNamespaceError namespace ext))))"

text \<open>The loop over the entries, with the running accumulator \<open>merged\<close>.\<close>

primrec extendsLoop ::
  "(string \<Rightarrow> ApiGuardianConfig option outcome) \<Rightarrow> ApiGuardianConfig \<Rightarrow> string list
     \<Rightarrow> ApiGuardianConfig outcome" where
  "extendsLoop entry merged [] = Some (Inr merged)"
| "extendsLoop entry merged (ext # rest) =
     (case entry ext of
        None \<Rightarrow> None
      | Some (Inl e) \<Rightarrow> Some (Inl e)
      | Some (Inr None) \<Rightarrow> extendsLoop entry merged rest
      | Some (Inr (Some extConfig)) \<Rightarrow> extendsLoop entry (mergeConfigs merged extConfig) rest)"

text \<open>
  \<^verbatim>\<open>!config.extends\<close> holds for a missing field and for the empty string; otherwise the
  entries are the array itself, or the one string.
\<close>

definition extendsArray :: "StringOrArray option \<Rightarrow> string list option" where
  "extendsArray e =
     (case e of
        None \<Rightarrow> None
      | Some (Single s) \<Rightarrow> if s = [] then None else Some [s]
      | Some (Several xs) \<Rightarrow> Some xs)"

text \<open>
  \<^verbatim>\<open>resolveExtends\<close>.  The source recurses on file references with no cycle detection, so
  the recursion depth is bounded by a fuel argument.
\<close>

primrec resolveExtends ::
  "nat \<Rightarrow> (string \<Rightarrow> ConfigError + ApiGuardianConfig) \<Rightarrow> (string \<Rightarrow> string \<Rightarrow> string)
     \<Rightarrow> ApiGuardianConfig \<Rightarrow> string \<Rightarrow> ApiGuardianConfig outcome" where
  "resolveExtends 0 loadConfig resolvePath config basePath = None"
| "resolveExtends (Suc n) loadConfig resolvePath config basePath =
     (case extendsArray (cfg_extends config) of
        None \<Rightarrow> Some (Inr config)
      | Some exts \<Rightarrow>
          (case extendsLoop
                  (resolveEntry (resolveExtends n loadConfig resolvePath) loadConfig resolvePath
                     basePath)
                  DEFAULT_CONFIG exts of
             None \<Rightarrow> None
           | Some (Inl e) \<Rightarrow> Some (Inl e)
           | Some (Inr merged) \<Rightarrow> Some (Inr (mergeConfigs merged config))))"

text \<open>\<^verbatim>\<open>loadAndResolve\<close>: \<^verbatim>\<open>{ ...resolved, configPath: filePath }\<close>.\<close>

definition loadAndResolve ::
  "nat \<Rightarrow> (string \<Rightarrow> ConfigError + ApiGuardianConfig) \<Rightarrow> (string \<Rightarrow> string \<Rightarrow> string)
     \<Rightarrow> string \<Rightarrow> ApiGuardianConfig outcome" where
  "loadAndResolve fuel loadConfig resolvePath filePath =
     (case loadConfig filePath of
        Inl e \<Rightarrow> Some (Inl e)
      | Inr config \<Rightarrow>
          (case resolveExtends fuel loadConfig resolvePath config filePath of
             None \<Rightarrow> None
           | Some (Inl e) \<Rightarrow> Some (Inl e)
           | Some (Inr resolved) \<Rightarrow>
               Some (Inr (resolved\<lparr>cfg_custom :=
                            (cfg_custom resolved)(''configPath'' \<mapsto> JStr filePath)\<rparr>))))"

section \<open>Validator\<close>

text \<open>\<^verbatim>\<open>LoadedSpec\<close>, what the loader hands to the orchestrator.\<close>

record LoadedSpec =
  ls_spec :: jsval
  ls_warnings :: "string list option"
  ls_success :: bool
  ls_error :: "string option"

record Validator =
  v_registry :: RuleRegistry
  v_config :: "ApiGuardianConfig option"

text \<open>
  The result of \<^verbatim>\<open>validate\<close>, without the three clock readings (\<open>executionTime\<close>,
  \<open>totalTime\<close>, \<open>validatedAt\<close>).  \<open>vr_spec = None\<close> is \<^verbatim>\<open>spec: null\<close>.
\<close>

record RunStats =
  run_rulesExecuted :: nat
  run_issuesFound :: nat

record RunMetadata =
  md_configPath :: "string option"
  md_ruleCount :: nat
  md_warnings :: "string list option"
  md_error :: "string option"

record ValidationRun =
  vr_spec :: "jsval option"
  vr_valid :: bool
  vr_issues :: "ValidationIssue list"
  vr_stats :: RunStats
  vr_metadata :: RunMetadata

text \<open>
  \<^verbatim>\<open>validate\<close>.  The loader call \<^verbatim>\<open>this.specLoader.load(specPath)\<close> is the parameter
  \<open>load\<close>: \<open>Inr r\<close> when it returns the \<^verbatim>\<open>LoadedSpec\<close> \<open>r\<close>, \<open>Inl msg\<close> when it
  throws (or the call itself fails) with message \<open>msg\<close>, which the \<^verbatim>\<open>catch\<close> of
  \<^verbatim>\<open>validate\<close> receives.
\<close>

definition validate ::
  "Validator \<Rightarrow> (string \<Rightarrow> string + LoadedSpec) \<Rightarrow> string \<Rightarrow> IssueSeverity option
     \<Rightarrow> ValidationRun" where
  "validate v load specPath defaultSeverity =
     (let configPath = (case v_config v of Some c \<Rightarrow> Some ''provided'' | None \<Rightarrow> None);
          ruleCount = getCount (v_registry v)
      in case load specPath of
           Inl message \<Rightarrow>
             \<lparr>vr_spec = None, vr_valid = False, vr_issues = [],
              vr_stats = \<lparr>run_rulesExecuted = 0, run_issuesFound = 0\<rparr>,
              vr_metadata = \<lparr>md_configPath = configPath, md_ruleCount = ruleCount,
                             md_warnings = None, md_error = Some message\<rparr>\<rparr>
         | Inr loadResult \<Rightarrow>
             if \<not> ls_success loadResult then
               \<lparr>vr_spec = None, vr_valid = False, vr_issues = [],
                vr_stats = \<lparr>run_rulesExecuted = 0, run_issuesFound = 0\<rparr>,
                vr_metadata = \<lparr>md_configPath = configPath, md_ruleCount = ruleCount,
                               md_warnings = ls_warnings loadResult,
                               md_error = ls_error loadResult\<rparr>\<rparr>
             else
               (let spec = ls_spec loadResult;
                    enabledRuleIds =
                      filter (\<lambda>id. isEnabled (v_registry v) id) (getAllIds (v_registry v))
                in case executeAll (v_registry v) spec (Some enabledRuleIds)
                          (Some (case defaultSeverity of Some d \<Rightarrow> d | None \<Rightarrow> WARNING)) of
                     (issues, stats) \<Rightarrow>
                       (let errorCount =
                              length (filter (\<lambda>i. issue_severity i = JStr (severityValue ERROR))
                                        issues);
                            valid = (errorCount = 0)
                        in \<lparr>vr_spec = Some spec, vr_valid = valid, vr_issues = issues,
                            vr_stats = \<lparr>run_rulesExecuted =
                                          length (filter (\<lambda>s. stats_executed s) stats),
                                        run_issuesFound = length issues\<rparr>,
                            vr_metadata = \<lparr>md_configPath = configPath, md_ruleCount = ruleCount,
                                           md_warnings = ls_warnings loadResult,
                                           md_error = None\<rparr>\<rparr>)))"

section \<open>Notions used in the statements\<close>

text \<open>
  The severity that the specification's formula
  \<^verbatim>\<open>override.severity ?? defaultSeverity ?? rule.severity\<close> gives.
\<close>

definition spec_effective_severity ::
  "IssueSeverity option \<Rightarrow> IssueSeverity option \<Rightarrow> IssueSeverity \<Rightarrow> IssueSeverity" where
  "spec_effective_severity overrideSeverity defaultSeverity ruleSeverity =
     (case overrideSeverity of
        Some s \<Rightarrow> s
      | None \<Rightarrow> (case defaultSeverity of Some d \<Rightarrow> d | None \<Rightarrow> ruleSeverity))"

text \<open>
  An override merged onto an earlier one as the specification's invariant words it:
  fields absent from the later override keep the earlier override's values.
\<close>

definition spec_merged_override :: "RuleConfig \<Rightarrow> RuleConfig \<Rightarrow> RuleConfig" where
  "spec_merged_override o1 o2 =
     \<lparr>rc_severity = (case rc_severity o2 of Some s \<Rightarrow> Some s | None \<Rightarrow> rc_severity o1),
      rc_enabled = (case rc_enabled o2 of Some b \<Rightarrow> Some b | None \<Rightarrow> rc_enabled o1),
      rc_options = (case rc_options o2 of Some m \<Rightarrow> Some m | None \<Rightarrow> rc_options o1)\<rparr>"

text \<open>The override that \<^verbatim>\<open>applyOverrides\<close> stores for an entry's value.\<close>

definition storedOverride :: "RuleSetting \<Rightarrow> RuleConfig" where
  "storedOverride config =
     (case config of
        Flag b \<Rightarrow> \<lparr>rc_severity = None, rc_enabled = Some b, rc_options = None\<rparr>
      | Override c \<Rightarrow> c)"

text \<open>
  A field of a surviving raw element as the engine reads it: the element's own value for
  the key when it has one and that value is truthy, the default otherwise.
\<close>

definition suppliedOr :: "(string \<times> jsval) list \<Rightarrow> string \<Rightarrow> jsval \<Rightarrow> jsval" where
  "suppliedOr kvs key dflt =
     (case map_of kvs key of
        Some v \<Rightarrow> if truthy v then v else dflt
      | None \<Rightarrow> dflt)"

text \<open>The configurations of an \<^verbatim>\<open>extends\<close> array that were not skipped.\<close>

definition present :: "'a option list \<Rightarrow> 'a list" where
  "present rs = concat (map (\<lambda>r. case r of None \<Rightarrow> [] | Some c \<Rightarrow> [c]) rs)"

section \<open>Example data\<close>

text \<open>A rule that reports one finding, one that throws, and a registry holding both.\<close>

definition reportingRule :: Rule where
  "reportingRule =
     \<lparr>rule_id = ''r-report'', rule_name = ''Reporting rule'',
      rule_description = ''reports one finding'', rule_severity = ERROR,
      rule_category = STRUCTURAL, rule_enabled = Some True, rule_fixable = None,
      rule_fn = (\<lambda>spec options. Inr (JArr [JObj [(''message'', JStr ''x'')]])),
      rule_options = Some (map_of [(''minPaths'', JNum 1), (''casing'', JStr ''kebab'')])\<rparr>"

definition throwingRule :: Rule where
  "throwingRule =
     \<lparr>rule_id = ''r-throw'', rule_name = ''Throwing rule'',
      rule_description = ''always throws'', rule_severity = WARNING,
      rule_category = REST, rule_enabled = None, rule_fixable = None,
      rule_fn = (\<lambda>spec options. Inl ''boom''),
      rule_options = None\<rparr>"

definition exampleRegistry :: RuleRegistry where
  "exampleRegistry =
     (case register createRuleRegistry throwingRule of
        Inl e \<Rightarrow> createRuleRegistry
      | Inr reg1 \<Rightarrow>
          (case register reg1 reportingRule of Inl e \<Rightarrow> reg1 | Inr reg2 \<Rightarrow> reg2))"

text \<open>Three overrides for the reporting rule.\<close>

definition casingOverride :: RuleConfig where
  "casingOverride =
     \<lparr>rc_severity = None, rc_enabled = Some False,
      rc_options = Some (map_of [(''casing'', JStr ''camel'')])\<rparr>"

definition warningOnly :: RuleConfig where
  "warningOnly = \<lparr>rc_severity = Some WARNING, rc_enabled = None, rc_options = None\<rparr>"

definition disableOnly :: RuleConfig where
  "disableOnly = \<lparr>rc_severity = None, rc_enabled = Some False, rc_options = None\<rparr>"

text \<open>A raw return value with seven elements, two of which carry a message.\<close>

definition rawResults :: jsval where
  "rawResults =
     JArr [JNum 3, JNull, JStr ''message'', JArr [JStr ''message''],
           JObj [(''path'', JStr ''$.info'')],
           JObj [(''message'', JStr ''m1''), (''severity'', JStr ''hint''),
                 (''ruleDescription'', JStr [])],
           JObj [(''message'', JNull), (''ruleId'', JStr ''other''), (''line'', JNum 7)]]"

text \<open>
  Three configuration files in the directory \<open>/cfg\<close>: \<open>base\<close>, \<open>middle\<close> extending
  \<open>base\<close>, and \<open>top\<close> extending \<open>middle\<close>.  \<open>chainFiles\<close> is what \<^verbatim>\<open>loadConfig\<close> gives
  for each path (the \<^verbatim>\<open>ConfigError\<close> of a missing file otherwise), and \<open>chainResolve\<close>
  resolves a reference \<open>./name\<close> against a base file in \<open>/cfg\<close>.
\<close>

definition baseConfig :: ApiGuardianConfig where
  "baseConfig =
     emptyConfig\<lparr>cfg_rules := Some (map_of [(''rule1'', Flag True), (''rule2'', Flag False)])\<rparr>"

definition middleConfig :: ApiGuardianConfig where
  "middleConfig =
     emptyConfig\<lparr>cfg_extends := Some (Several [''./base.yaml'']),
                 cfg_rules := Some (map_of [(''rule2'', Flag True), (''rule3'', Flag True)])\<rparr>"

definition topConfig :: ApiGuardianConfig where
  "topConfig =
     emptyConfig\<lparr>cfg_extends := Some (Single ''./middle.yaml''),
                 cfg_rules := Some (map_of [(''rule3'', Flag False)])\<rparr>"

definition fileNotFound :: "string \<Rightarrow> ConfigError" where
  "fileNotFound filePath =
     \<lparr>ce_message = ''Config file not found: '' @ filePath,
      ce_property = Some ''configPath'',
      ce_value = Some filePath,
      ce_expectedFormat = Some ''valid file path'',
      ce_constraint = Some ''file must exist'',
      ce_suggestion = Some (''Check that the config file exists at: '' @ filePath)\<rparr>"

definition chainFiles :: "string \<Rightarrow> ConfigError + ApiGuardianConfig" where
  "chainFiles filePath =
     (if filePath = ''/cfg/base.yaml'' then Inr baseConfig
      else if filePath = ''/cfg/middle.yaml'' then Inr middleConfig
      else if filePath = ''/cfg/top.yaml'' then Inr topConfig
      else Inl (fileNotFound filePath))"

definition chainResolve :: "string \<Rightarrow> string \<Rightarrow> string" where
  "chainResolve basePath ext = ''/cfg/'' @ drop 2 ext"

text \<open>Parent and child of the merge example, and a pair that sets the same rule id.\<close>

definition parentConfig :: ApiGuardianConfig where
  "parentConfig =
     emptyConfig\<lparr>cfg_rules := Some (map_of [(''a'', Flag True), (''b'', Flag False)])\<rparr>"

definition childConfig :: ApiGuardianConfig where
  "childConfig =
     emptyConfig\<lparr>cfg_rules := Some (map_of [(''b'', Flag True), (''c'', Flag True)])\<rparr>"

definition parentOverride :: ApiGuardianConfig where
  "parentOverride =
     emptyConfig\<lparr>cfg_rules := Some (map_of [(''a'', Override warningOnly)]),
                 cfg_showInfo := Some False,
                 cfg_files := Some [\<lparr>fc_pattern = ''p.yaml'', fc_ignore = None, fc_rules = None\<rparr>]\<rparr>"

definition childOverride :: ApiGuardianConfig where
  "childOverride =
     emptyConfig\<lparr>cfg_rules := Some (map_of [(''a'', Override disableOnly)]),
                 cfg_defaultSeverity := Some HINT,
                 cfg_files := Some [\<lparr>fc_pattern = ''c.yaml'', fc_ignore = None, fc_rules = None\<rparr>]\<rparr>"

text \<open>A configuration that extends \<open>middle\<close> first and \<open>base\<close> second.\<close>

definition orderedConfig :: ApiGuardianConfig where
  "orderedConfig =
     emptyConfig\<lparr>cfg_extends := Some (Several [''./middle.yaml'', ''spectral:oas'', ''./base.yaml'']),
                 cfg_rules := Some (map_of [(''rule4'', Flag True)])\<rparr>"

text \<open>
  A loader that knows one good document and one that fails its checks, and throws for any
  other path; a validator over the example registry, and one whose registry lowers the
  reporting rule to \<open>warning\<close>.
\<close>

definition exampleLoad :: "string \<Rightarrow> string + LoadedSpec" where
  "exampleLoad specPath =
     (if specPath = ''openapi.yaml'' then
        Inr \<lparr>ls_spec = JObj [(''openapi'', JStr ''3.0.3''),
                            (''info'', JObj [(''title'', JStr ''Test API'')])],
             ls_warnings = None, ls_success = True, ls_error = None\<rparr>
      else if specPath = ''broken.yaml'' then
        Inr \<lparr>ls_spec = JNull, ls_warnings = Some [''no paths''], ls_success = False,
             ls_error = Some ''Invalid OpenAPI spec''\<rparr>
      else Inl (''Spec file not found: '' @ specPath))"

definition exampleValidator :: Validator where
  "exampleValidator = \<lparr>v_registry = exampleRegistry, v_config = None\<rparr>"

definition lenientValidator :: Validator where
  "lenientValidator =
     \<lparr>v_registry = applyOverrides exampleRegistry [(''r-report'', Override warningOnly)],
      v_config = Some emptyConfig\<rparr>"

section \<open>Facts about the registry\<close>

lemma exampleRegistry_rules:
  "reg_rules exampleRegistry = [(''r-throw'', throwingRule), (''r-report'', reportingRule)]"
  by (simp add: exampleRegistry_def register_def createRuleRegistry_def throwingRule_def
      reportingRule_def)

lemma exampleRegistry_overrides: "reg_overrides exampleRegistry = Map.empty"
  by (simp add: exampleRegistry_def register_def createRuleRegistry_def throwingRule_def
      reportingRule_def)

lemma get_rule_example:
  "get_rule exampleRegistry ''r-report'' = Some reportingRule"
  "get_rule exampleRegistry ''r-throw'' = Some throwingRule"
  "get_rule exampleRegistry ''r-missing'' = None"
  by (simp_all add: get_rule_def exampleRegistry_rules)

lemma reg_rules_setOverride: "reg_rules (setOverride reg entry) = reg_rules reg"
  by (simp add: setOverride_def split: prod.splits RuleSetting.splits)

lemma reg_rules_applyOverrides: "reg_rules (applyOverrides reg cs) = reg_rules reg"
  unfolding applyOverrides_def
  by (induction cs arbitrary: reg) (simp_all add: reg_rules_setOverride)

lemma get_rule_applyOverrides: "get_rule (applyOverrides reg cs) = get_rule reg"
  by (simp add: get_rule_def fun_eq_iff reg_rules_applyOverrides)

lemma reg_overrides_setOverride:
  "reg_overrides (setOverride reg (ruleId, config)) =
     (reg_overrides reg)(ruleId \<mapsto> storedOverride config)"
  by (simp add: setOverride_def storedOverride_def split: RuleSetting.splits)

text \<open>
  After a call of \<^verbatim>\<open>applyOverrides\<close> the stored overrides are the old ones, overwritten
  by the entries of the call, a later entry for a key overwriting an earlier one.
\<close>

lemma reg_overrides_applyOverrides:
  "reg_overrides (applyOverrides reg cs) =
     reg_overrides reg ++ map_of (rev (map (\<lambda>(k, c). (k, storedOverride c)) cs))"
  unfolding applyOverrides_def
proof (induction cs arbitrary: reg)
  case Nil
  show ?case by simp
next
  case (Cons entry cs)
  obtain k c where entry: "entry = (k, c)" by (cases entry)
  show ?case
    by (simp add: Cons.IH entry reg_overrides_setOverride map_add_assoc [symmetric] map_add_def
         fun_eq_iff split: option.splits)
qed

lemma reg_overrides_applyOverrides_single:
  "reg_overrides (applyOverrides reg [(ruleId, config)]) =
     (reg_overrides reg)(ruleId \<mapsto> storedOverride config)"
  by (simp add: applyOverrides_def reg_overrides_setOverride)

section \<open>Severity precedence in the effective rule\<close>

text \<open>
  C3.  Let \<open>R\<close> be a registered rule whose own severity is \<open>error\<close>.  If the override
  stored for \<open>R\<close>'s id has severity \<open>warning\<close>, then \<^verbatim>\<open>getEffectiveRule(R.id)\<close> has
  severity \<open>warning\<close>.  If no override is stored for \<open>R\<close>'s id, then
  \<^verbatim>\<open>getEffectiveRule(R.id, info)\<close> is \<open>R\<close> itself and so still has severity \<open>error\<close>:
  without an override the rule's own severity outranks the default-severity argument.
\<close>

theorem effective_severity_precedence:
  assumes registered: "get_rule reg (rule_id R) = Some R"
    and base: "rule_severity R = ERROR"
  shows "(reg_overrides reg (rule_id R) = Some ov \<and> rc_severity ov = Some WARNING \<longrightarrow>
            map_option rule_severity (getEffectiveRule reg (rule_id R) None) = Some WARNING)
       \<and> (reg_overrides reg (rule_id R) = None \<longrightarrow>
            getEffectiveRule reg (rule_id R) (Some INFO) = Some R
          \<and> map_option rule_severity (getEffectiveRule reg (rule_id R) (Some INFO)) = Some ERROR)"
  using registered base by (simp add: getEffectiveRule_def get_rule_def)

theorem effective_severity_precedence_witness:
  "map_option rule_severity
     (getEffectiveRule
        (applyOverrides exampleRegistry
           [(''r-report'',
             Override \<lparr>rc_severity = Some WARNING, rc_enabled = None, rc_options = None\<rparr>)])
        ''r-report'' None) = Some WARNING
   \<and> map_option rule_severity (getEffectiveRule exampleRegistry ''r-report'' (Some INFO))
       = Some ERROR"
proof -
  let ?ov = "\<lparr>rc_severity = Some WARNING, rc_enabled = None, rc_options = None\<rparr>"
  let ?reg = "applyOverrides exampleRegistry [(''r-report'', Override ?ov)]"
  have id: "rule_id reportingRule = ''r-report''" and sev: "rule_severity reportingRule = ERROR"
    by (simp_all add: reportingRule_def)
  have r1: "get_rule ?reg (rule_id reportingRule) = Some reportingRule"
    by (simp add: get_rule_applyOverrides get_rule_example id)
  have o1: "reg_overrides ?reg (rule_id reportingRule) = Some ?ov \<and> rc_severity ?ov = Some WARNING"
    by (simp add: reg_overrides_applyOverrides_single id storedOverride_def)
  have r2: "get_rule exampleRegistry (rule_id reportingRule) = Some reportingRule"
    by (simp add: get_rule_example id)
  have o2: "reg_overrides exampleRegistry (rule_id reportingRule) = None"
    by (simp add: exampleRegistry_overrides)
  have a: "map_option rule_severity (getEffectiveRule ?reg (rule_id reportingRule) None)
             = Some WARNING"
    using effective_severity_precedence [OF r1 sev, of ?ov] o1 by blast
  have b: "map_option rule_severity
             (getEffectiveRule exampleRegistry (rule_id reportingRule) (Some INFO)) = Some ERROR"
    using effective_severity_precedence [OF r2 sev] o2 by blast
  from a b show ?thesis unfolding id by blast
qed

text \<open>
  Against C2 as stated.  The specification's formula for the effective severity puts the default-severity argument
  above the rule's own severity also when no override is stored.  The code does not: for
  the reporting rule (own severity \<open>error\<close>, no override stored) and the argument
  \<open>info\<close> the effective severity is \<open>error\<close>, where the formula gives \<open>info\<close>.
\<close>

theorem effective_default_counterexample:
  "get_rule exampleRegistry ''r-report'' = Some reportingRule
   \<and> reg_overrides exampleRegistry ''r-report'' = None
   \<and> map_option rule_severity (getEffectiveRule exampleRegistry ''r-report'' (Some INFO))
       \<noteq> Some (spec_effective_severity None (Some INFO) (rule_severity reportingRule))"
  by (simp add: get_rule_example exampleRegistry_overrides getEffectiveRule_def
      exampleRegistry_rules spec_effective_severity_def reportingRule_def)

text \<open>
  C2, as amended.  \<^verbatim>\<open>getEffectiveRule(id, defaultSeverity?)\<close> is \<^verbatim>\<open>null\<close> for an unknown
  id.  For a registered rule with no stored override it is the rule itself, whatever the
  default-severity argument.  For a registered rule with a stored override it is the rule
  with \<open>enabled = override.enabled ?? rule.enabled\<close>,
  \<open>severity = override.severity ?? defaultSeverity ?? rule.severity\<close> and the options of the
  rule shallow-merged with those of the override (a key of the override wins, a key of the
  rule that the override lacks is kept); every other field is the rule's.
\<close>

theorem getEffectiveRule_cases:
  "(get_rule reg ruleId = None \<longrightarrow> getEffectiveRule reg ruleId d = None)
   \<and> (get_rule reg ruleId = Some rule \<and> reg_overrides reg ruleId = None \<longrightarrow>
        getEffectiveRule reg ruleId d = Some rule)
   \<and> (get_rule reg ruleId = Some rule \<and> reg_overrides reg ruleId = Some ov \<longrightarrow>
        (\<exists>eff. getEffectiveRule reg ruleId d = Some eff
           \<and> rule_enabled eff =
               (case rc_enabled ov of Some b \<Rightarrow> Some b | None \<Rightarrow> rule_enabled rule)
           \<and> rule_severity eff = spec_effective_severity (rc_severity ov) d (rule_severity rule)
           \<and> (\<exists>opts. rule_options eff = Some opts
                \<and> (\<forall>k. opts k =
                      (case spread (rc_options ov) k of
                         Some v \<Rightarrow> Some v
                       | None \<Rightarrow> spread (rule_options rule) k)))
           \<and> rule_id eff = rule_id rule \<and> rule_name eff = rule_name rule
           \<and> rule_description eff = rule_description rule
           \<and> rule_category eff = rule_category rule \<and> rule_fixable eff = rule_fixable rule
           \<and> rule_fn eff = rule_fn rule))"
  by (auto simp add: getEffectiveRule_def get_rule_def spec_effective_severity_def map_add_def
      split: option.splits)

theorem getEffectiveRule_cases_witness:
  "getEffectiveRule exampleRegistry ''r-missing'' (Some INFO) = None
   \<and> getEffectiveRule exampleRegistry ''r-report'' (Some INFO) = Some reportingRule
   \<and> (\<exists>eff opts.
        getEffectiveRule (applyOverrides exampleRegistry [(''r-report'', Override casingOverride)])
          ''r-report'' (Some INFO) = Some eff
        \<and> rule_enabled eff = Some False \<and> rule_severity eff = INFO
        \<and> rule_options eff = Some opts
        \<and> opts ''casing'' = Some (JStr ''camel'') \<and> opts ''minPaths'' = Some (JNum 1))"
proof -
  let ?reg = "applyOverrides exampleRegistry [(''r-report'', Override casingOverride)]"
  have a: "getEffectiveRule exampleRegistry ''r-missing'' (Some INFO) = None"
    using getEffectiveRule_cases [of exampleRegistry "''r-missing''"] get_rule_example(3)
    by blast
  have b: "getEffectiveRule exampleRegistry ''r-report'' (Some INFO) = Some reportingRule"
    using getEffectiveRule_cases [of exampleRegistry "''r-report''" _ reportingRule]
      get_rule_example(1) exampleRegistry_overrides
    by simp
  have r: "get_rule ?reg ''r-report'' = Some reportingRule"
    by (simp add: get_rule_applyOverrides get_rule_example)
  have ov: "reg_overrides ?reg ''r-report'' = Some casingOverride"
    by (simp add: reg_overrides_applyOverrides_single storedOverride_def)
  from getEffectiveRule_cases [of ?reg "''r-report''" "Some INFO" reportingRule casingOverride]
    r ov
  obtain eff opts where e: "getEffectiveRule ?reg ''r-report'' (Some INFO) = Some eff"
    and e1: "rule_enabled eff =
               (case rc_enabled casingOverride of Some b \<Rightarrow> Some b
                | None \<Rightarrow> rule_enabled reportingRule)"
    and e2: "rule_severity eff =
               spec_effective_severity (rc_severity casingOverride) (Some INFO)
                 (rule_severity reportingRule)"
    and e3: "rule_options eff = Some opts"
    and e4: "\<forall>k. opts k =
                (case spread (rc_options casingOverride) k of Some v \<Rightarrow> Some v
                 | None \<Rightarrow> spread (rule_options reportingRule) k)"
    by blast
  have "rule_enabled eff = Some False" using e1 by (simp add: casingOverride_def)
  moreover have "rule_severity eff = INFO"
    using e2 by (simp add: casingOverride_def spec_effective_severity_def)
  moreover have "opts ''casing'' = Some (JStr ''camel'')"
    using e4 by (simp add: casingOverride_def spread_def)
  moreover have "opts ''minPaths'' = Some (JNum 1)"
    using e4 by (simp add: casingOverride_def spread_def reportingRule_def)
  ultimately show ?thesis using a b e e3 by blast
qed

section \<open>Successive override applications\<close>

text \<open>
  Against C7 as stated.  Merging a second override onto the stored one is not what \<^verbatim>\<open>applyOverrides\<close> does.
  After \<open>{severity: warning}\<close> and then \<open>{enabled: false}\<close> for the same id, the stored
  override has no severity, where the merged override would have kept \<open>warning\<close>.
\<close>

theorem applyOverrides_merge_counterexample:
  "reg_overrides
     (applyOverrides (applyOverrides exampleRegistry [(''r-report'', Override warningOnly)])
        [(''r-report'', Override disableOnly)]) ''r-report''
     \<noteq> Some (spec_merged_override warningOnly disableOnly)
   \<and> map_option rc_severity
       (reg_overrides
          (applyOverrides (applyOverrides exampleRegistry [(''r-report'', Override warningOnly)])
             [(''r-report'', Override disableOnly)]) ''r-report'') = Some None
   \<and> rc_severity (spec_merged_override warningOnly disableOnly) = Some WARNING"
  by (simp add: reg_overrides_applyOverrides_single storedOverride_def warningOnly_def
      disableOnly_def spec_merged_override_def)

text \<open>
  C7, as amended.  For every rule id and every two override values applied for that id
  through successive \<^verbatim>\<open>applyOverrides\<close> calls on the same registry, the second application
  replaces the stored override: what is stored afterwards is the second value alone (a bare
  boolean as \<open>{enabled: b}\<close>), the stored overrides and the effective rule are those of a
  registry on which the first call never happened, and so a field absent from the second
  override is absent afterwards.
\<close>

theorem applyOverrides_replaces:
  "reg_overrides (applyOverrides (applyOverrides reg [(ruleId, c1)]) [(ruleId, c2)]) ruleId
     = Some (storedOverride c2)
   \<and> reg_overrides (applyOverrides (applyOverrides reg [(ruleId, c1)]) [(ruleId, c2)])
     = reg_overrides (applyOverrides reg [(ruleId, c2)])
   \<and> getEffectiveRule (applyOverrides (applyOverrides reg [(ruleId, c1)]) [(ruleId, c2)]) ruleId d
     = getEffectiveRule (applyOverrides reg [(ruleId, c2)]) ruleId d"
proof -
  let ?twice = "applyOverrides (applyOverrides reg [(ruleId, c1)]) [(ruleId, c2)]"
  let ?once = "applyOverrides reg [(ruleId, c2)]"
  have ov: "reg_overrides ?twice = reg_overrides ?once"
    by (simp add: reg_overrides_applyOverrides_single)
  have rules: "reg_rules ?twice = reg_rules ?once"
    by (simp add: reg_rules_applyOverrides)
  have "reg_overrides ?twice ruleId = Some (storedOverride c2)"
    by (simp add: reg_overrides_applyOverrides_single)
  moreover have "getEffectiveRule ?twice ruleId d = getEffectiveRule ?once ruleId d"
    unfolding getEffectiveRule_def ov rules ..
  ultimately show ?thesis using ov by blast
qed

theorem applyOverrides_replaces_witness:
  "reg_overrides
     (applyOverrides (applyOverrides exampleRegistry [(''r-report'', Override warningOnly)])
        [(''r-report'', Flag False)]) ''r-report''
     = Some \<lparr>rc_severity = None, rc_enabled = Some False, rc_options = None\<rparr>"
  using applyOverrides_replaces
          [of exampleRegistry "''r-report''" "Override warningOnly" "Flag False",
           THEN conjunct1]
  by (simp add: storedOverride_def)

text \<open>
  The same for calls with several entries: an id named by the later call ends with that
  call's value, whatever the earlier call stored.
\<close>

lemma applyOverrides_last_call_wins:
  assumes "distinct (map fst cs2)" and "(ruleId, c2) \<in> set cs2"
  shows "reg_overrides (applyOverrides (applyOverrides reg cs1) cs2) ruleId
           = Some (storedOverride c2)"
proof -
  have d: "distinct (map fst (rev (map (\<lambda>(k, c). (k, storedOverride c)) cs2)))"
    using assms(1) by (simp add: rev_map [symmetric] comp_def case_prod_unfold)
  have m: "(ruleId, storedOverride c2) \<in> set (rev (map (\<lambda>(k, c). (k, storedOverride c)) cs2))"
    using assms(2) by force
  show ?thesis
    using map_of_is_SomeI [OF d m] by (simp add: reg_overrides_applyOverrides)
qed

section \<open>Failure isolation in the engine\<close>

lemma foldl_executeStep:
  "foldl (executeStep reg spec d) (is0, ss0) ids =
     (is0 @ concat (map (\<lambda>i. fst (executeRule reg i spec d)) ids),
      ss0 @ map (\<lambda>i. snd (executeRule reg i spec d)) ids)"
  by (induction ids arbitrary: is0 ss0) (simp_all add: executeStep_def split: prod.splits)

lemma executeAll_eq:
  "executeAll reg spec ruleIds d =
     (let toExecute = (case ruleIds of Some ids \<Rightarrow> ids | None \<Rightarrow> getAllIds reg)
      in (concat (map (\<lambda>i. fst (executeRule reg i spec d)) toExecute),
          map (\<lambda>i. snd (executeRule reg i spec d)) toExecute))"
  by (simp add: executeAll_def Let_def foldl_executeStep)

lemma not_found_sublist: "sublist ''not found'' (''Rule '' @ quoted ruleId @ '' not found'')"
proof -
  have "''Rule '' @ quoted ruleId @ '' not found'' =
          (''Rule '' @ quoted ruleId @ '' '') @ ''not found'' @ []"
    by simp
  then show ?thesis unfolding sublist_def by blast
qed

lemma getEffectiveRule_fn:
  "getEffectiveRule reg ruleId d = Some eff \<Longrightarrow> get_rule reg ruleId = Some rule \<Longrightarrow>
     rule_fn eff = rule_fn rule"
  by (auto simp add: getEffectiveRule_def get_rule_def split: option.splits)

lemma isEnabled_example:
  "isEnabled exampleRegistry ''r-report''" "isEnabled exampleRegistry ''r-throw''"
  "\<not> isEnabled (applyOverrides exampleRegistry [(''r-report'', Flag False)]) ''r-report''"
  by (simp_all add: isEnabled_def getEffectiveRule_def exampleRegistry_rules
      exampleRegistry_overrides reg_rules_applyOverrides reg_overrides_applyOverrides_single
      storedOverride_def reportingRule_def throwingRule_def)

lemma getEffectiveRule_example:
  "getEffectiveRule exampleRegistry ''r-report'' d = Some reportingRule"
  "getEffectiveRule exampleRegistry ''r-throw'' d = Some throwingRule"
  by (simp_all add: getEffectiveRule_def exampleRegistry_rules exampleRegistry_overrides)

text \<open>
  The raw output \<open>[{message: "x"}]\<close> of the reporting rule becomes one issue whose rule id,
  description and severity are the rule's and whose path is \<open>root\<close>.
\<close>

lemma executeRule_reporting:
  "executeRule exampleRegistry ''r-report'' spec d =
     ([\<lparr>issue_ruleId = JStr ''r-report'', issue_ruleDescription = JStr ''Reporting rule'',
        issue_severity = JStr ''error'', issue_path = JStr ''root'', issue_line = JUndefined,
        issue_column = JUndefined, issue_message = JStr ''x'', issue_suggestion = JUndefined,
        issue_category = JUndefined\<rparr>],
      \<lparr>stats_ruleId = ''r-report'', stats_executed = True, stats_issuesFound = 1,
       stats_error = None\<rparr>)"
  by (simp add: executeRule_def get_rule_example isEnabled_example getEffectiveRule_example
      initialStats_def)
     (simp add: reportingRule_def normalizeResults_def normalizeResult_def js_or_def)

text \<open>
  C1.  \<^verbatim>\<open>executeRule\<close> returns a result for every rule id, document and default severity
  (the model is a total function whose only throwing call, the rule function, is a case of
  its own).  For an id that is not registered the result has no issues and statistics whose
  error message contains \<open>not found\<close>.  For a disabled rule it has no issues,
  \<open>executed = false\<close> and no error.  When the rule function throws, it has no issues,
  \<open>executed = false\<close> and the thrown message as the error.  \<^verbatim>\<open>executeAll\<close> returns, for
  the given ids in their order (all registered ids when none are given), the concatenation
  of the issues and the list of the statistics that \<^verbatim>\<open>executeRule\<close> gives for each id by
  itself: a failing rule changes nothing in what the other rules of the batch contribute.
\<close>

theorem executeRule_failures_are_data:
  "(get_rule reg ruleId = None \<longrightarrow>
      (\<exists>msg. executeRule reg ruleId spec d =
                ([], \<lparr>stats_ruleId = ruleId, stats_executed = False, stats_issuesFound = 0,
                      stats_error = Some msg\<rparr>)
             \<and> sublist ''not found'' msg))
   \<and> (get_rule reg ruleId = Some rule \<and> \<not> isEnabled reg ruleId \<longrightarrow>
        executeRule reg ruleId spec d =
          ([], \<lparr>stats_ruleId = ruleId, stats_executed = False, stats_issuesFound = 0,
                stats_error = None\<rparr>))
   \<and> (get_rule reg ruleId = Some rule \<and> isEnabled reg ruleId
        \<and> getEffectiveRule reg ruleId d = Some eff
        \<and> rule_fn rule spec (rule_options eff) = Inl message \<longrightarrow>
        executeRule reg ruleId spec d =
          ([], \<lparr>stats_ruleId = ruleId, stats_executed = False, stats_issuesFound = 0,
                stats_error = Some message\<rparr>))
   \<and> fst (executeAll reg spec (Some ids) d) =
       concat (map (\<lambda>i. fst (executeRule reg i spec d)) ids)
   \<and> snd (executeAll reg spec (Some ids) d) = map (\<lambda>i. snd (executeRule reg i spec d)) ids
   \<and> executeAll reg spec None d = executeAll reg spec (Some (getAllIds reg)) d"
proof -
  have a: "get_rule reg ruleId = None \<longrightarrow>
      (\<exists>msg. executeRule reg ruleId spec d =
                ([], \<lparr>stats_ruleId = ruleId, stats_executed = False, stats_issuesFound = 0,
                      stats_error = Some msg\<rparr>)
             \<and> sublist ''not found'' msg)"
    using not_found_sublist [of ruleId] by (simp add: executeRule_def initialStats_def)
  have b: "get_rule reg ruleId = Some rule \<and> \<not> isEnabled reg ruleId \<longrightarrow>
        executeRule reg ruleId spec d =
          ([], \<lparr>stats_ruleId = ruleId, stats_executed = False, stats_issuesFound = 0,
                stats_error = None\<rparr>)"
    by (simp add: executeRule_def initialStats_def)
  have c: "get_rule reg ruleId = Some rule \<and> isEnabled reg ruleId
        \<and> getEffectiveRule reg ruleId d = Some eff
        \<and> rule_fn rule spec (rule_options eff) = Inl message \<longrightarrow>
        executeRule reg ruleId spec d =
          ([], \<lparr>stats_ruleId = ruleId, stats_executed = False, stats_issuesFound = 0,
                stats_error = Some message\<rparr>)"
  proof (intro impI, elim conjE)
    assume r: "get_rule reg ruleId = Some rule" and en: "isEnabled reg ruleId"
      and e: "getEffectiveRule reg ruleId d = Some eff"
      and t: "rule_fn rule spec (rule_options eff) = Inl message"
    have "rule_fn eff spec (rule_options eff) = Inl message"
      using getEffectiveRule_fn [OF e r] t by simp
    then show "executeRule reg ruleId spec d =
          ([], \<lparr>stats_ruleId = ruleId, stats_executed = False, stats_issuesFound = 0,
                stats_error = Some message\<rparr>)"
      using r en e by (simp add: executeRule_def initialStats_def)
  qed
  have d1: "fst (executeAll reg spec (Some ids) d) =
       concat (map (\<lambda>i. fst (executeRule reg i spec d)) ids)"
    and d2: "snd (executeAll reg spec (Some ids) d) = map (\<lambda>i. snd (executeRule reg i spec d)) ids"
    and d3: "executeAll reg spec None d = executeAll reg spec (Some (getAllIds reg)) d"
    by (simp_all add: executeAll_eq)
  from a b c d1 d2 d3 show ?thesis by blast
qed

theorem executeRule_failures_are_data_witness:
  "(\<exists>msg. executeRule exampleRegistry ''r-missing'' JNull None =
            ([], \<lparr>stats_ruleId = ''r-missing'', stats_executed = False, stats_issuesFound = 0,
                  stats_error = Some msg\<rparr>)
          \<and> sublist ''not found'' msg)
   \<and> executeRule (applyOverrides exampleRegistry [(''r-report'', Flag False)]) ''r-report''
       JNull None =
       ([], \<lparr>stats_ruleId = ''r-report'', stats_executed = False, stats_issuesFound = 0,
             stats_error = None\<rparr>)
   \<and> executeRule exampleRegistry ''r-throw'' JNull None =
       ([], \<lparr>stats_ruleId = ''r-throw'', stats_executed = False, stats_issuesFound = 0,
             stats_error = Some ''boom''\<rparr>)
   \<and> map issue_message
       (fst (executeAll exampleRegistry JNull (Some [''r-throw'', ''r-report'']) None))
       = [JStr ''x'']
   \<and> snd (executeAll exampleRegistry JNull (Some [''r-throw'', ''r-report'']) None) =
       [\<lparr>stats_ruleId = ''r-throw'', stats_executed = False, stats_issuesFound = 0,
         stats_error = Some ''boom''\<rparr>,
        \<lparr>stats_ruleId = ''r-report'', stats_executed = True, stats_issuesFound = 1,
         stats_error = None\<rparr>]"
proof -
  let ?off = "applyOverrides exampleRegistry [(''r-report'', Flag False)]"
  let ?ids = "[''r-throw'', ''r-report'']"
  note main = executeRule_failures_are_data
  have a: "\<exists>msg. executeRule exampleRegistry ''r-missing'' JNull None =
            ([], \<lparr>stats_ruleId = ''r-missing'', stats_executed = False, stats_issuesFound = 0,
                  stats_error = Some msg\<rparr>)
          \<and> sublist ''not found'' msg"
    using main [of exampleRegistry "''r-missing''" JNull None] get_rule_example(3) by blast
  have "get_rule ?off ''r-report'' = Some reportingRule"
    by (simp add: get_rule_applyOverrides get_rule_example)
  then have b: "executeRule ?off ''r-report'' JNull None =
       ([], \<lparr>stats_ruleId = ''r-report'', stats_executed = False, stats_issuesFound = 0,
             stats_error = None\<rparr>)"
    using main [of ?off "''r-report''" JNull None reportingRule] isEnabled_example(3) by blast
  have "rule_fn throwingRule JNull (rule_options throwingRule) = Inl ''boom''"
    by (simp add: throwingRule_def)
  then have c: "executeRule exampleRegistry ''r-throw'' JNull None =
       ([], \<lparr>stats_ruleId = ''r-throw'', stats_executed = False, stats_issuesFound = 0,
             stats_error = Some ''boom''\<rparr>)"
    using main [of exampleRegistry "''r-throw''" JNull None throwingRule throwingRule "''boom''"]
      get_rule_example(2) isEnabled_example(2) getEffectiveRule_example(2) by blast
  have d1: "fst (executeAll exampleRegistry JNull (Some ?ids) None) =
       concat (map (\<lambda>i. fst (executeRule exampleRegistry i JNull None)) ?ids)"
    and d2: "snd (executeAll exampleRegistry JNull (Some ?ids) None) =
       map (\<lambda>i. snd (executeRule exampleRegistry i JNull None)) ?ids"
    using main [of exampleRegistry _ JNull None _ _ _ ?ids] by blast+
  have e1: "map issue_message (fst (executeAll exampleRegistry JNull (Some ?ids) None))
              = [JStr ''x'']"
    unfolding d1 by (simp add: c executeRule_reporting)
  have e2: "snd (executeAll exampleRegistry JNull (Some ?ids) None) =
       [\<lparr>stats_ruleId = ''r-throw'', stats_executed = False, stats_issuesFound = 0,
         stats_error = Some ''boom''\<rparr>,
        \<lparr>stats_ruleId = ''r-report'', stats_executed = True, stats_issuesFound = 1,
         stats_error = None\<rparr>]"
    unfolding d2 by (simp add: c executeRule_reporting)
  from a b c e1 e2 show ?thesis by blast
qed

section \<open>Normalisation of raw rule output\<close>

lemma js_or_get: "js_or (js_get (JObj kvs) key) dflt = suppliedOr kvs key dflt"
  by (simp add: js_or_def suppliedOr_def split: option.splits)

lemma js_in_message_iff:
  "js_in ''message'' x \<longleftrightarrow> (\<exists>kvs. x = JObj kvs \<and> ''message'' \<in> set (map fst kvs))"
  by (cases x) simp_all

lemma normalizeResult_dropped:
  "\<not> js_in ''message'' x \<Longrightarrow> normalizeResult ruleId ruleName severity x = None"
  by (simp add: normalizeResult_def)

lemma normalizeResult_object:
  "''message'' \<in> set (map fst kvs) \<Longrightarrow>
     normalizeResult ruleId ruleName severity (JObj kvs) =
       Some \<lparr>issue_ruleId = suppliedOr kvs ''ruleId'' (JStr ruleId),
             issue_ruleDescription = suppliedOr kvs ''ruleDescription'' (JStr ruleName),
             issue_severity = suppliedOr kvs ''severity'' (JStr (severityValue severity)),
             issue_path = suppliedOr kvs ''path'' (JStr ''root''),
             issue_line = suppliedOr kvs ''line'' JUndefined,
             issue_column = suppliedOr kvs ''column'' JUndefined,
             issue_message = suppliedOr kvs ''message'' (JStr []),
             issue_suggestion = suppliedOr kvs ''suggestion'' JUndefined,
             issue_category = suppliedOr kvs ''category'' JUndefined\<rparr>"
  unfolding normalizeResult_def js_or_get by simp

lemma normalizeResult_None_iff:
  "normalizeResult ruleId ruleName severity x = None \<longleftrightarrow> \<not> js_in ''message'' x"
  by (cases x) (simp_all add: normalizeResult_def)

lemma normalizeResults_array:
  "normalizeResults (JArr xs) ruleId ruleName severity =
     map (\<lambda>x. the (normalizeResult ruleId ruleName severity x)) (filter (js_in ''message'') xs)"
proof -
  have keep: "(normalizeResult ruleId ruleName severity x \<noteq> None) = js_in ''message'' x" for x
    by (simp add: normalizeResult_None_iff)
  have "map the (filter (\<lambda>issue. issue \<noteq> None)
                  (map (normalizeResult ruleId ruleName severity) xs)) =
        map (\<lambda>x. the (normalizeResult ruleId ruleName severity x))
          (filter (js_in ''message'') xs)"
    by (induction xs) (simp_all only: list.map filter.simps keep split: if_splits, simp_all)
  then show ?thesis by (simp only: normalizeResults_def jsval.case)
qed

lemma normalizeResults_non_array:
  "(\<forall>xs. results \<noteq> JArr xs) \<Longrightarrow> normalizeResults results ruleId ruleName severity = []"
  by (cases results) (simp_all add: normalizeResults_def)

text \<open>The success path of \<^verbatim>\<open>executeRule\<close>: what it hands to the normalisation.\<close>

lemma executeRule_success:
  assumes r: "get_rule reg ruleId = Some rule" and en: "isEnabled reg ruleId"
    and e: "getEffectiveRule reg ruleId d = Some eff"
    and f: "rule_fn rule spec (rule_options eff) = Inr raw"
  shows "executeRule reg ruleId spec d =
           (normalizeResults raw ruleId (rule_name rule) (rule_severity eff),
            \<lparr>stats_ruleId = ruleId, stats_executed = True,
             stats_issuesFound =
               length (normalizeResults raw ruleId (rule_name rule) (rule_severity eff)),
             stats_error = None\<rparr>)"
proof -
  have "rule_fn eff spec (rule_options eff) = Inr raw"
    using getEffectiveRule_fn [OF e r] f by simp
  then show ?thesis
    using r en e by (simp add: executeRule_def initialStats_def Let_def)
qed

text \<open>
  Against C6 as stated.  A raw element that supplies a field does not always override the
  default.  The element
  \<open>{message: "x", ruleDescription: ""}\<close> has a \<open>ruleDescription\<close> of its own, the empty
  string, and its issue carries the rule's name: the engine reads each field with
  \<^verbatim>\<open>||\<close>, which passes over every falsy value.
\<close>

theorem supplied_field_counterexample:
  "js_in ''ruleDescription'' (JObj [(''message'', JStr ''x''), (''ruleDescription'', JStr [])])
   \<and> map issue_ruleDescription
       (normalizeResults
          (JArr [JObj [(''message'', JStr ''x''), (''ruleDescription'', JStr [])]])
          ''r1'' ''Rule one'' ERROR) = [JStr ''Rule one'']
   \<and> js_get (JObj [(''message'', JStr ''x''), (''ruleDescription'', JStr [])]) ''ruleDescription''
       \<noteq> JStr ''Rule one''"
  by (simp add: normalizeResults_array normalizeResult_object suppliedOr_def)

text \<open>
  C6, as amended.  A raw return value that is not an array yields no issues.  Of an array,
  the elements that are objects with a \<open>message\<close> key survive, in their order, and every
  other element is dropped.  A surviving element is projected onto the issue shape field by
  field: its own value where it has the key with a truthy value, and otherwise, whether the
  key is absent or holds a falsy value, the default, which is the rule id given to
  \<^verbatim>\<open>normalizeResults\<close> for \<open>ruleId\<close>, the rule name given for \<open>ruleDescription\<close>, the
  severity given for \<open>severity\<close>, \<open>root\<close> for \<open>path\<close>, the empty string for
  \<open>message\<close> and \<^verbatim>\<open>undefined\<close> for the four remaining fields.  The engine gives the
  executing rule's id, the registered rule's name and the effective rule's severity: when
  an enabled rule's function returns \<open>raw\<close>, \<^verbatim>\<open>executeRule\<close> returns the normalisation of
  \<open>raw\<close> under these three, with \<open>executed = true\<close>, the number of issues and no error.
\<close>

theorem normalizeResults_contract:
  "((\<forall>xs. results \<noteq> JArr xs) \<longrightarrow> normalizeResults results ruleId ruleName severity = [])
   \<and> normalizeResults (JArr xs) ruleId ruleName severity =
       map (\<lambda>x. the (normalizeResult ruleId ruleName severity x)) (filter (js_in ''message'') xs)
   \<and> (js_in ''message'' x \<longleftrightarrow> (\<exists>kvs. x = JObj kvs \<and> ''message'' \<in> set (map fst kvs)))
   \<and> (''message'' \<in> set (map fst kvs) \<longrightarrow>
        normalizeResult ruleId ruleName severity (JObj kvs) =
          Some \<lparr>issue_ruleId = suppliedOr kvs ''ruleId'' (JStr ruleId),
                issue_ruleDescription = suppliedOr kvs ''ruleDescription'' (JStr ruleName),
                issue_severity = suppliedOr kvs ''severity'' (JStr (severityValue severity)),
                issue_path = suppliedOr kvs ''path'' (JStr ''root''),
                issue_line = suppliedOr kvs ''line'' JUndefined,
                issue_column = suppliedOr kvs ''column'' JUndefined,
                issue_message = suppliedOr kvs ''message'' (JStr []),
                issue_suggestion = suppliedOr kvs ''suggestion'' JUndefined,
                issue_category = suppliedOr kvs ''category'' JUndefined\<rparr>)
   \<and> (get_rule reg rid = Some rule \<and> isEnabled reg rid
        \<and> getEffectiveRule reg rid d = Some eff
        \<and> rule_fn rule spec (rule_options eff) = Inr raw \<longrightarrow>
        executeRule reg rid spec d =
          (normalizeResults raw rid (rule_name rule) (rule_severity eff),
           \<lparr>stats_ruleId = rid, stats_executed = True,
            stats_issuesFound =
              length (normalizeResults raw rid (rule_name rule) (rule_severity eff)),
            stats_error = None\<rparr>))"
  using normalizeResults_non_array [of results ruleId ruleName severity]
    normalizeResults_array [of xs ruleId ruleName severity]
    js_in_message_iff [of x]
    normalizeResult_object [of kvs ruleId ruleName severity]
    executeRule_success [of reg rid rule d eff spec raw]
  by blast

theorem normalizeResults_contract_witness:
  "normalizeResults (JObj [(''message'', JStr ''not in an array'')]) ''r1'' ''Rule one'' ERROR = []
   \<and> normalizeResults rawResults ''r1'' ''Rule one'' ERROR =
       [\<lparr>issue_ruleId = JStr ''r1'', issue_ruleDescription = JStr ''Rule one'',
         issue_severity = JStr ''hint'', issue_path = JStr ''root'', issue_line = JUndefined,
         issue_column = JUndefined, issue_message = JStr ''m1'', issue_suggestion = JUndefined,
         issue_category = JUndefined\<rparr>,
        \<lparr>issue_ruleId = JStr ''other'', issue_ruleDescription = JStr ''Rule one'',
         issue_severity = JStr ''error'', issue_path = JStr ''root'', issue_line = JNum 7,
         issue_column = JUndefined, issue_message = JStr [], issue_suggestion = JUndefined,
         issue_category = JUndefined\<rparr>]
   \<and> executeRule (applyOverrides exampleRegistry [(''r-report'', Override warningOnly)])
       ''r-report'' JNull (Some INFO) =
       ([\<lparr>issue_ruleId = JStr ''r-report'', issue_ruleDescription = JStr ''Reporting rule'',
          issue_severity = JStr ''warning'', issue_path = JStr ''root'', issue_line = JUndefined,
          issue_column = JUndefined, issue_message = JStr ''x'', issue_suggestion = JUndefined,
          issue_category = JUndefined\<rparr>],
        \<lparr>stats_ruleId = ''r-report'', stats_executed = True, stats_issuesFound = 1,
         stats_error = None\<rparr>)"
proof -
  note main = normalizeResults_contract [where ruleId = "''r1''" and ruleName = "''Rule one''"
      and severity = ERROR]
  let ?a = "[(''message'', JStr ''m1''), (''severity'', JStr ''hint''),
             (''ruleDescription'', JStr [])]"
  let ?b = "[(''message'', JNull), (''ruleId'', JStr ''other''), (''line'', JNum 7)]"
  have 1: "normalizeResults (JObj [(''message'', JStr ''not in an array'')])
             ''r1'' ''Rule one'' ERROR = []"
    using main [of "JObj [(''message'', JStr ''not in an array'')]"] by simp
  have a: "normalizeResult ''r1'' ''Rule one'' ERROR (JObj ?a) =
             Some \<lparr>issue_ruleId = JStr ''r1'', issue_ruleDescription = JStr ''Rule one'',
         issue_severity = JStr ''hint'', issue_path = JStr ''root'', issue_line = JUndefined,
         issue_column = JUndefined, issue_message = JStr ''m1'', issue_suggestion = JUndefined,
         issue_category = JUndefined\<rparr>"
    using main [of _ _ _ ?a] by (simp add: suppliedOr_def)
  have b: "normalizeResult ''r1'' ''Rule one'' ERROR (JObj ?b) =
             Some \<lparr>issue_ruleId = JStr ''other'', issue_ruleDescription = JStr ''Rule one'',
         issue_severity = JStr ''error'', issue_path = JStr ''root'', issue_line = JNum 7,
         issue_column = JUndefined, issue_message = JStr [], issue_suggestion = JUndefined,
         issue_category = JUndefined\<rparr>"
    using main [of _ _ _ ?b] by (simp add: suppliedOr_def)
  have 2: "normalizeResults rawResults ''r1'' ''Rule one'' ERROR =
             map (\<lambda>x. the (normalizeResult ''r1'' ''Rule one'' ERROR x))
               [JObj ?a, JObj ?b]"
    unfolding rawResults_def using main [of _ "[JNum 3, JNull, JStr ''message'', JArr [JStr ''message''],
           JObj [(''path'', JStr ''$.info'')], JObj ?a, JObj ?b]"] by simp
  let ?reg = "applyOverrides exampleRegistry [(''r-report'', Override warningOnly)]"
  let ?eff = "reportingRule\<lparr>rule_enabled := Some True, rule_severity := WARNING,
                            rule_options := Some (spread (rule_options reportingRule))\<rparr>"
  let ?raw = "JArr [JObj [(''message'', JStr ''x'')]]"
  have g: "get_rule ?reg ''r-report'' = Some reportingRule"
    by (simp add: get_rule_applyOverrides get_rule_example)
  have ov: "reg_overrides ?reg ''r-report'' = Some warningOnly"
    by (simp add: reg_overrides_applyOverrides_single storedOverride_def)
  have eff: "getEffectiveRule ?reg ''r-report'' d = Some ?eff" for d
    using g ov
    by (simp add: getEffectiveRule_def get_rule_def warningOnly_def reportingRule_def spread_def)
  have en: "isEnabled ?reg ''r-report''"
    by (simp add: isEnabled_def eff)
  have fn: "rule_fn reportingRule JNull (rule_options ?eff) = Inr ?raw"
    by (simp add: reportingRule_def)
  have x: "executeRule ?reg ''r-report'' JNull (Some INFO) =
          (normalizeResults ?raw ''r-report'' (rule_name reportingRule) (rule_severity ?eff),
           \<lparr>stats_ruleId = ''r-report'', stats_executed = True,
            stats_issuesFound =
              length (normalizeResults ?raw ''r-report'' (rule_name reportingRule)
                        (rule_severity ?eff)),
            stats_error = None\<rparr>)"
    using normalizeResults_contract [of _ _ _ _ _ _ _ ?reg "''r-report''" reportingRule
        "Some INFO" ?eff JNull ?raw, THEN conjunct2, THEN conjunct2, THEN conjunct2,
        THEN conjunct2] g en eff [of "Some INFO"] fn
    by blast
  have n: "normalizeResults ?raw ''r-report'' (rule_name reportingRule) (rule_severity ?eff) =
             [\<lparr>issue_ruleId = JStr ''r-report'', issue_ruleDescription = JStr ''Reporting rule'',
          issue_severity = JStr ''warning'', issue_path = JStr ''root'', issue_line = JUndefined,
          issue_column = JUndefined, issue_message = JStr ''x'', issue_suggestion = JUndefined,
          issue_category = JUndefined\<rparr>]"
    using normalizeResults_contract [of _ "''r-report''" "rule_name reportingRule"
        "rule_severity ?eff" "[JObj [(''message'', JStr ''x'')]]" _ "[(''message'', JStr ''x'')]"]
    by (simp add: suppliedOr_def reportingRule_def)
  have 3: "executeRule ?reg ''r-report'' JNull (Some INFO) =
       ([\<lparr>issue_ruleId = JStr ''r-report'', issue_ruleDescription = JStr ''Reporting rule'',
          issue_severity = JStr ''warning'', issue_path = JStr ''root'', issue_line = JUndefined,
          issue_column = JUndefined, issue_message = JStr ''x'', issue_suggestion = JUndefined,
          issue_category = JUndefined\<rparr>],
        \<lparr>stats_ruleId = ''r-report'', stats_executed = True, stats_issuesFound = 1,
         stats_error = None\<rparr>)"
    unfolding x n by simp
  show ?thesis using 1 2 a b 3 by simp
qed

section \<open>Presence of the message key\<close>

text \<open>
  Against C10 as stated.  An element whose message is not a string is kept, but its message
  is the empty string
  only when the value is falsy: \<open>{message: 42}\<close> normalises to an issue whose message is
  the number 42.
\<close>

theorem message_value_counterexample:
  "js_in ''message'' (JObj [(''message'', JNum 42)])
   \<and> typeof (JNum 42) \<noteq> ''string''
   \<and> map issue_message
       (normalizeResults (JArr [JObj [(''message'', JNum 42)]]) ''r1'' ''Rule one'' ERROR)
       = [JNum 42]
   \<and> JNum 42 \<noteq> JStr []"
  by (simp add: normalizeResults_array normalizeResult_object suppliedOr_def)

text \<open>
  C10, as amended.  Whether a raw element is dropped depends on the presence of the
  \<open>message\<close> key, not on its value: every element of the raw array that is an object with
  a \<open>message\<close> key is normalised to an issue of the result.  The issue's message is the
  empty string when the value is falsy (\<^verbatim>\<open>undefined\<close>, \<^verbatim>\<open>null\<close>, \<^verbatim>\<open>false\<close>, 0,
  \<^verbatim>\<open>NaN\<close>, the empty string), and the value itself when it is truthy, string or not.
\<close>

theorem message_presence_keeps_element:
  "''message'' \<in> set (map fst kvs) \<and> JObj kvs \<in> set xs \<longrightarrow>
     (\<exists>issue. normalizeResult ruleId ruleName severity (JObj kvs) = Some issue
        \<and> issue \<in> set (normalizeResults (JArr xs) ruleId ruleName severity)
        \<and> issue_message issue =
            (if truthy (js_get (JObj kvs) ''message'') then js_get (JObj kvs) ''message''
             else JStr []))"
proof (intro impI, elim conjE)
  assume k: "''message'' \<in> set (map fst kvs)" and x: "JObj kvs \<in> set xs"
  let ?i = "the (normalizeResult ruleId ruleName severity (JObj kvs))"
  have some: "normalizeResult ruleId ruleName severity (JObj kvs) = Some ?i"
    using normalizeResult_object [OF k] by simp
  have "JObj kvs \<in> set (filter (js_in ''message'') xs)"
    using k x by simp
  then have mem: "?i \<in> set (normalizeResults (JArr xs) ruleId ruleName severity)"
    unfolding normalizeResults_array by (simp only: set_map) (rule imageI)
  have msg: "issue_message ?i =
               (if truthy (js_get (JObj kvs) ''message'') then js_get (JObj kvs) ''message''
                else JStr [])"
    using normalizeResult_object [OF k, of ruleId ruleName severity]
    by (simp add: suppliedOr_def split: option.splits)
  from some mem msg
  show "\<exists>issue. normalizeResult ruleId ruleName severity (JObj kvs) = Some issue
        \<and> issue \<in> set (normalizeResults (JArr xs) ruleId ruleName severity)
        \<and> issue_message issue =
            (if truthy (js_get (JObj kvs) ''message'') then js_get (JObj kvs) ''message''
             else JStr [])"
    by blast
qed

theorem message_presence_keeps_element_witness:
  "(\<exists>issue. issue \<in> set (normalizeResults (JArr [JNum 1, JObj [(''message'', JNull)]])
                          ''r1'' ''Rule one'' ERROR)
        \<and> issue_message issue = JStr [])
   \<and> (\<exists>issue. issue \<in> set (normalizeResults (JArr [JObj [(''message'', JNum 0)]])
                          ''r1'' ''Rule one'' ERROR)
        \<and> issue_message issue = JStr [])
   \<and> (\<exists>issue. issue \<in> set (normalizeResults (JArr [JObj [(''message'', JStr [])]])
                          ''r1'' ''Rule one'' ERROR)
        \<and> issue_message issue = JStr [])
   \<and> (\<exists>issue. issue \<in> set (normalizeResults (JArr [JObj [(''message'', JBool True)]])
                          ''r1'' ''Rule one'' ERROR)
        \<and> issue_message issue = JBool True)"
proof -
  note main = message_presence_keeps_element [where ruleId = "''r1''"
      and ruleName = "''Rule one''" and severity = ERROR]
  have a: "\<exists>issue. issue \<in> set (normalizeResults (JArr [JNum 1, JObj [(''message'', JNull)]])
                          ''r1'' ''Rule one'' ERROR)
        \<and> issue_message issue = JStr []"
    using main [of "[(''message'', JNull)]" "[JNum 1, JObj [(''message'', JNull)]]"] by auto
  have b: "\<exists>issue. issue \<in> set (normalizeResults (JArr [JObj [(''message'', JNum 0)]])
                          ''r1'' ''Rule one'' ERROR)
        \<and> issue_message issue = JStr []"
    using main [of "[(''message'', JNum 0)]" "[JObj [(''message'', JNum 0)]]"] by auto
  have c: "\<exists>issue. issue \<in> set (normalizeResults (JArr [JObj [(''message'', JStr [])]])
                          ''r1'' ''Rule one'' ERROR)
        \<and> issue_message issue = JStr []"
    using main [of "[(''message'', JStr [])]" "[JObj [(''message'', JStr [])]]"] by auto
  have d: "\<exists>issue. issue \<in> set (normalizeResults (JArr [JObj [(''message'', JBool True)]])
                          ''r1'' ''Rule one'' ERROR)
        \<and> issue_message issue = JBool True"
    using main [of "[(''message'', JBool True)]" "[JObj [(''message'', JBool True)]]"] by auto
  from a b c d show ?thesis by blast
qed

section \<open>Merging configurations\<close>

lemma spread_simps [simp]: "spread None = Map.empty" "spread (Some m) = m"
  by (simp_all add: spread_def)

text \<open>
  C5.  \<^verbatim>\<open>mergeConfigs(parent, child)\<close> sets each of \<open>defaultSeverity\<close>,
  \<open>failOnWarnings\<close> and \<open>showInfo\<close> to the child's value when the child defines it and
  to the parent's otherwise; \<open>files\<close> is the child's array as a whole when the child
  defines one, the parent's otherwise; \<open>rules\<close> and \<open>rulesets\<close> are merged key by key,
  the child's value for a key winning as a whole (an override object of the child is not
  merged with the parent's override object for the same rule id) and the parent's keys that
  the child lacks being kept.  Parent rules \<open>{a: true, b: false}\<close> merged with child rules
  \<open>{b: true, c: true}\<close> give \<open>{a: true, b: true, c: true}\<close>.
\<close>

theorem mergeConfigs_fields:
  "cfg_defaultSeverity (mergeConfigs parent child) =
     (case cfg_defaultSeverity child of Some s \<Rightarrow> Some s | None \<Rightarrow> cfg_defaultSeverity parent)
   \<and> cfg_failOnWarnings (mergeConfigs parent child) =
     (case cfg_failOnWarnings child of Some b \<Rightarrow> Some b | None \<Rightarrow> cfg_failOnWarnings parent)
   \<and> cfg_showInfo (mergeConfigs parent child) =
     (case cfg_showInfo child of Some b \<Rightarrow> Some b | None \<Rightarrow> cfg_showInfo parent)
   \<and> cfg_files (mergeConfigs parent child) =
     (case cfg_files child of Some files \<Rightarrow> Some files | None \<Rightarrow> cfg_files parent)
   \<and> (\<exists>rules. cfg_rules (mergeConfigs parent child) = Some rules
        \<and> (\<forall>k. rules k =
              (case spread (cfg_rules child) k of
                 Some v \<Rightarrow> Some v
               | None \<Rightarrow> spread (cfg_rules parent) k)))
   \<and> (\<exists>rulesets. cfg_rulesets (mergeConfigs parent child) = Some rulesets
        \<and> (\<forall>k. rulesets k =
              (case spread (cfg_rulesets child) k of
                 Some v \<Rightarrow> Some v
               | None \<Rightarrow> spread (cfg_rulesets parent) k)))
   \<and> cfg_rules (mergeConfigs parentConfig childConfig) =
       Some (map_of [(''a'', Flag True), (''b'', Flag True), (''c'', Flag True)])"
proof -
  have "cfg_rules (mergeConfigs parentConfig childConfig) =
       Some (map_of [(''a'', Flag True), (''b'', Flag True), (''c'', Flag True)])"
    by (simp add: mergeConfigs_def parentConfig_def childConfig_def emptyConfig_def fun_eq_iff
        map_add_def)
  then show ?thesis by (simp add: mergeConfigs_def map_add_def)
qed

theorem mergeConfigs_fields_witness:
  "cfg_defaultSeverity (mergeConfigs parentOverride childOverride) = Some HINT
   \<and> cfg_showInfo (mergeConfigs parentOverride childOverride) = Some False
   \<and> cfg_failOnWarnings (mergeConfigs parentOverride childOverride) = None
   \<and> cfg_files (mergeConfigs parentOverride childOverride) =
       Some [\<lparr>fc_pattern = ''c.yaml'', fc_ignore = None, fc_rules = None\<rparr>]
   \<and> (\<exists>rules. cfg_rules (mergeConfigs parentOverride childOverride) = Some rules
        \<and> rules ''a'' = Some (Override disableOnly))"
proof -
  note main = mergeConfigs_fields [of parentOverride childOverride]
  have 1: "cfg_defaultSeverity (mergeConfigs parentOverride childOverride) = Some HINT"
    using main by (simp add: parentOverride_def childOverride_def emptyConfig_def)
  have 2: "cfg_showInfo (mergeConfigs parentOverride childOverride) = Some False"
    using main by (simp add: parentOverride_def childOverride_def emptyConfig_def)
  have 3: "cfg_failOnWarnings (mergeConfigs parentOverride childOverride) = None"
    using main by (simp add: parentOverride_def childOverride_def emptyConfig_def)
  have 4: "cfg_files (mergeConfigs parentOverride childOverride) =
       Some [\<lparr>fc_pattern = ''c.yaml'', fc_ignore = None, fc_rules = None\<rparr>]"
    using main by (simp add: parentOverride_def childOverride_def emptyConfig_def)
  from main obtain rules where r: "cfg_rules (mergeConfigs parentOverride childOverride) = Some rules"
    and k: "\<forall>k. rules k =
              (case spread (cfg_rules childOverride) k of
                 Some v \<Rightarrow> Some v
               | None \<Rightarrow> spread (cfg_rules parentOverride) k)"
    by blast
  have "rules ''a'' = Some (Override disableOnly)"
    using k by (simp add: childOverride_def emptyConfig_def)
  with 1 2 3 4 r show ?thesis by blast
qed


section \<open>Resolution of extends\<close>

text \<open>
  When every entry resolves, the loop folds \<^verbatim>\<open>mergeConfigs\<close> over the resolved
  configurations in array order, leaving out the skipped entries; when an entry throws after
  entries that resolved, the loop throws the same error.
\<close>

lemma extendsLoop_resolved:
  "map entry exts = map (\<lambda>r. Some (Inr r)) rs \<Longrightarrow>
     extendsLoop entry merged exts = Some (Inr (foldl mergeConfigs merged (present rs)))"
proof (induction exts arbitrary: merged rs)
  case Nil
  then show ?case by (simp add: present_def)
next
  case (Cons ext exts)
  then obtain r rs' where rs: "rs = r # rs'" and e: "entry ext = Some (Inr r)"
    and rest: "map entry exts = map (\<lambda>r. Some (Inr r)) rs'"
    by (cases rs) auto
  show ?case
  proof (cases r)
    case None
    then show ?thesis using Cons.IH [OF rest] e rs by (simp add: present_def)
  next
    case (Some c)
    then show ?thesis using Cons.IH [OF rest] e rs by (simp add: present_def)
  qed
qed

lemma extendsLoop_failure:
  "map entry pre = map (\<lambda>r. Some (Inr r)) rs \<Longrightarrow> entry ext = Some (Inl e) \<Longrightarrow>
     extendsLoop entry merged (pre @ ext # post) = Some (Inl e)"
proof (induction pre arbitrary: merged rs)
  case Nil
  then show ?case by simp
next
  case (Cons x pre)
  then obtain r rs' where "rs = r # rs'" and "entry x = Some (Inr r)"
    and "map entry pre = map (\<lambda>r. Some (Inr r)) rs'"
    by (cases rs) auto
  then show ?case using Cons.IH [OF _ Cons.prems(2)] by (cases r) simp_all
qed

lemma rules_foldl_mergeConfigs:
  "spread (cfg_rules (foldl mergeConfigs acc cs)) =
     foldl (++) (spread (cfg_rules acc)) (map (\<lambda>c. spread (cfg_rules c)) cs)"
  by (induction cs arbitrary: acc) (simp_all add: mergeConfigs_def)

lemma rulesets_foldl_mergeConfigs:
  "spread (cfg_rulesets (foldl mergeConfigs acc cs)) =
     foldl (++) (spread (cfg_rulesets acc)) (map (\<lambda>c. spread (cfg_rulesets c)) cs)"
  by (induction cs arbitrary: acc) (simp_all add: mergeConfigs_def)

lemma resolveExtends_no_extends:
  "extendsArray (cfg_extends config) = None \<Longrightarrow>
     resolveExtends (Suc n) loadConfig resolvePath config basePath = Some (Inr config)"
  by simp

lemma resolveEntry_file:
  "isFileReference ext \<Longrightarrow> loadConfig (resolvePath basePath ext) = Inr loaded \<Longrightarrow>
     resolveEntry recur loadConfig resolvePath basePath ext =
       map_option (map_sum id Some) (recur loaded (resolvePath basePath ext))"
  by (simp add: resolveEntry_def Let_def split: option.splits sum.splits)

lemma chain_base:
  "resolveExtends (Suc k) chainFiles chainResolve baseConfig p = Some (Inr baseConfig)"
  by (simp add: baseConfig_def emptyConfig_def extendsArray_def)

lemma chain_middle:
  "resolveExtends (Suc (Suc k)) chainFiles chainResolve middleConfig ''/cfg/middle.yaml'' =
     Some (Inr (mergeConfigs (mergeConfigs DEFAULT_CONFIG baseConfig) middleConfig))"
proof -
  have e: "extendsArray (cfg_extends middleConfig) = Some [''./base.yaml'']"
    by (simp add: middleConfig_def emptyConfig_def extendsArray_def)
  have r: "resolveEntry (resolveExtends (Suc k) chainFiles chainResolve) chainFiles chainResolve
             ''/cfg/middle.yaml'' ''./base.yaml'' = Some (Inr (Some baseConfig))"
    by (simp add: resolveEntry_def isFileReference_def chainResolve_def chainFiles_def
        chain_base del: resolveExtends.simps)
  show ?thesis
    by (subst resolveExtends.simps(2)) (simp add: e r del: resolveExtends.simps)
qed


lemma chain_top:
  "resolveExtends (Suc (Suc (Suc k))) chainFiles chainResolve topConfig ''/cfg/top.yaml'' =
     Some (Inr (mergeConfigs
                  (mergeConfigs DEFAULT_CONFIG
                     (mergeConfigs (mergeConfigs DEFAULT_CONFIG baseConfig) middleConfig))
                  topConfig))"
proof -
  have e: "extendsArray (cfg_extends topConfig) = Some [''./middle.yaml'']"
    by (simp add: topConfig_def emptyConfig_def extendsArray_def)
  have r: "resolveEntry (resolveExtends (Suc (Suc k)) chainFiles chainResolve) chainFiles
             chainResolve ''/cfg/top.yaml'' ''./middle.yaml'' =
           Some (Inr (Some (mergeConfigs (mergeConfigs DEFAULT_CONFIG baseConfig) middleConfig)))"
    by (simp add: resolveEntry_def isFileReference_def chainResolve_def chainFiles_def
        chain_middle del: resolveExtends.simps)
  show ?thesis
    by (subst resolveExtends.simps(2)) (simp add: e r del: resolveExtends.simps)
qed

lemma chain_rules:
  "cfg_rules (mergeConfigs
                  (mergeConfigs DEFAULT_CONFIG
                     (mergeConfigs (mergeConfigs DEFAULT_CONFIG baseConfig) middleConfig))
                  topConfig) =
     Some (map_of [(''rule1'', Flag True), (''rule2'', Flag True), (''rule3'', Flag False)])"
  by (simp add: mergeConfigs_def DEFAULT_CONFIG_def baseConfig_def middleConfig_def topConfig_def
      emptyConfig_def fun_eq_iff map_add_def)

text \<open>
  C4.  Let a configuration have an \<^verbatim>\<open>extends\<close> array whose entries all resolve, the
  \<open>i\<close>-th to \<open>rs ! i\<close> (\<open>None\<close> for a skipped entry).  Then \<^verbatim>\<open>resolveExtends\<close>
  returns, and its result is the document merged onto the fold of \<^verbatim>\<open>mergeConfigs\<close> over
  the resolved entries in array order, starting from \<open>DEFAULT_CONFIG\<close>.  So the rules of the
  result are the rules of the default configuration, overwritten in turn by the rules of
  each entry in array order (a later entry wins over an earlier one on a key that both set)
  and last by the document's own rules; every rule key and every scalar field or \<open>files\<close>
  array that the document itself defines is in the result with the document's value.  A file
  reference is loaded from its path resolved against the extending file, and its own
  \<^verbatim>\<open>extends\<close> is resolved recursively with that path as the base.  For the chain of three
  files where \<open>base\<close> sets \<open>rule1 = true, rule2 = false\<close>, \<open>middle\<close> extends \<open>base\<close> and
  sets \<open>rule2 = true, rule3 = true\<close>, and \<open>top\<close> extends \<open>middle\<close> and sets
  \<open>rule3 = false\<close>, resolving \<open>top\<close> returns with any fuel of three or more, and the rules
  are \<open>{rule1: true, rule2: true, rule3: false}\<close>.
\<close>

theorem resolveExtends_order:
  "(extendsArray (cfg_extends config) = Some exts
    \<and> map (resolveEntry (resolveExtends n loadConfig resolvePath) loadConfig resolvePath basePath)
         exts = map (\<lambda>r. Some (Inr r)) rs \<longrightarrow>
      (\<exists>result rules.
         resolveExtends (Suc n) loadConfig resolvePath config basePath = Some (Inr result)
         \<and> result = mergeConfigs (foldl mergeConfigs DEFAULT_CONFIG (present rs)) config
         \<and> cfg_rules result = Some rules
         \<and> rules = foldl (++) Map.empty
                     (map (\<lambda>c. spread (cfg_rules c)) (DEFAULT_CONFIG # present rs @ [config]))
         \<and> (\<forall>k v. spread (cfg_rules config) k = Some v \<longrightarrow> rules k = Some v)
         \<and> (\<forall>s. cfg_defaultSeverity config = Some s \<longrightarrow> cfg_defaultSeverity result = Some s)
         \<and> (\<forall>b. cfg_failOnWarnings config = Some b \<longrightarrow> cfg_failOnWarnings result = Some b)
         \<and> (\<forall>b. cfg_showInfo config = Some b \<longrightarrow> cfg_showInfo result = Some b)
         \<and> (\<forall>files. cfg_files config = Some files \<longrightarrow> cfg_files result = Some files)))
   \<and> (isFileReference ext \<and> loadConfig (resolvePath basePath ext) = Inr loaded \<longrightarrow>
        resolveEntry recur loadConfig resolvePath basePath ext =
          map_option (map_sum id Some) (recur loaded (resolvePath basePath ext)))
   \<and> (\<exists>result.
        loadAndResolve (Suc (Suc (Suc k))) chainFiles chainResolve ''/cfg/top.yaml''
          = Some (Inr result)
        \<and> cfg_rules result =
            Some (map_of [(''rule1'', Flag True), (''rule2'', Flag True),
                          (''rule3'', Flag False)]))"
proof (intro conjI impI)
  assume h: "extendsArray (cfg_extends config) = Some exts
    \<and> map (resolveEntry (resolveExtends n loadConfig resolvePath) loadConfig resolvePath basePath)
         exts = map (\<lambda>r. Some (Inr r)) rs"
  let ?result = "mergeConfigs (foldl mergeConfigs DEFAULT_CONFIG (present rs)) config"
  let ?rules = "spread (cfg_rules (foldl mergeConfigs DEFAULT_CONFIG (present rs)))
                  ++ spread (cfg_rules config)"
  have loop: "extendsLoop
                (resolveEntry (resolveExtends n loadConfig resolvePath) loadConfig resolvePath
                   basePath) DEFAULT_CONFIG exts =
              Some (Inr (foldl mergeConfigs DEFAULT_CONFIG (present rs)))"
    using h extendsLoop_resolved by blast
  have 1: "resolveExtends (Suc n) loadConfig resolvePath config basePath = Some (Inr ?result)"
    using h loop by (simp del: extendsLoop.simps)
  have 2: "cfg_rules ?result = Some ?rules"
    by (simp add: mergeConfigs_def)
  have 3: "?rules = foldl (++) Map.empty
                     (map (\<lambda>c. spread (cfg_rules c)) (DEFAULT_CONFIG # present rs @ [config]))"
    by (simp add: rules_foldl_mergeConfigs)
  have 4: "\<forall>k v. spread (cfg_rules config) k = Some v \<longrightarrow> ?rules k = Some v"
    by (simp add: map_add_def)
  have 5: "\<forall>s. cfg_defaultSeverity config = Some s \<longrightarrow> cfg_defaultSeverity ?result = Some s"
    and 6: "\<forall>b. cfg_failOnWarnings config = Some b \<longrightarrow> cfg_failOnWarnings ?result = Some b"
    and 7: "\<forall>b. cfg_showInfo config = Some b \<longrightarrow> cfg_showInfo ?result = Some b"
    and 8: "\<forall>files. cfg_files config = Some files \<longrightarrow> cfg_files ?result = Some files"
    by (simp_all add: mergeConfigs_def)
  from 1 2 3 4 5 6 7 8
  show "\<exists>result rules.
         resolveExtends (Suc n) loadConfig resolvePath config basePath = Some (Inr result)
         \<and> result = mergeConfigs (foldl mergeConfigs DEFAULT_CONFIG (present rs)) config
         \<and> cfg_rules result = Some rules
         \<and> rules = foldl (++) Map.empty
                     (map (\<lambda>c. spread (cfg_rules c)) (DEFAULT_CONFIG # present rs @ [config]))
         \<and> (\<forall>k v. spread (cfg_rules config) k = Some v \<longrightarrow> rules k = Some v)
         \<and> (\<forall>s. cfg_defaultSeverity config = Some s \<longrightarrow> cfg_defaultSeverity result = Some s)
         \<and> (\<forall>b. cfg_failOnWarnings config = Some b \<longrightarrow> cfg_failOnWarnings result = Some b)
         \<and> (\<forall>b. cfg_showInfo config = Some b \<longrightarrow> cfg_showInfo result = Some b)
         \<and> (\<forall>files. cfg_files config = Some files \<longrightarrow> cfg_files result = Some files)"
    by blast
next
  assume "isFileReference ext \<and> loadConfig (resolvePath basePath ext) = Inr loaded"
  then show "resolveEntry recur loadConfig resolvePath basePath ext =
          map_option (map_sum id Some) (recur loaded (resolvePath basePath ext))"
    using resolveEntry_file by blast
next
  have "loadAndResolve (Suc (Suc (Suc k))) chainFiles chainResolve ''/cfg/top.yaml'' =
          Some (Inr ((mergeConfigs
                  (mergeConfigs DEFAULT_CONFIG
                     (mergeConfigs (mergeConfigs DEFAULT_CONFIG baseConfig) middleConfig))
                  topConfig)
                \<lparr>cfg_custom := (cfg_custom (mergeConfigs
                  (mergeConfigs DEFAULT_CONFIG
                     (mergeConfigs (mergeConfigs DEFAULT_CONFIG baseConfig) middleConfig))
                  topConfig))(''configPath'' \<mapsto> JStr ''/cfg/top.yaml'')\<rparr>))"
    by (simp add: loadAndResolve_def chainFiles_def chain_top del: resolveExtends.simps)
  then show "\<exists>result.
        loadAndResolve (Suc (Suc (Suc k))) chainFiles chainResolve ''/cfg/top.yaml''
          = Some (Inr result)
        \<and> cfg_rules result =
            Some (map_of [(''rule1'', Flag True), (''rule2'', Flag True),
                          (''rule3'', Flag False)])"
    using chain_rules by simp
qed


lemma entry_base:
  "resolveEntry (resolveExtends (Suc k) chainFiles chainResolve) chainFiles chainResolve
     b ''./base.yaml'' = Some (Inr (Some baseConfig))"
  by (simp add: resolveEntry_def isFileReference_def chainResolve_def chainFiles_def
      chain_base del: resolveExtends.simps)

lemma entry_middle:
  "resolveEntry (resolveExtends (Suc (Suc k)) chainFiles chainResolve) chainFiles chainResolve
     b ''./middle.yaml'' =
   Some (Inr (Some (mergeConfigs (mergeConfigs DEFAULT_CONFIG baseConfig) middleConfig)))"
  by (simp add: resolveEntry_def isFileReference_def chainResolve_def chainFiles_def
      chain_middle del: resolveExtends.simps)

lemma entry_spectral:
  "resolveEntry recur loadConfig resolvePath b ''spectral:oas'' = Some (Inr None)"
  by (simp add: resolveEntry_def isFileReference_def arrayAt_def)

theorem resolveExtends_order_witness:
  "(\<exists>result rules.
      resolveExtends (Suc (Suc (Suc 0))) chainFiles chainResolve orderedConfig
        ''/cfg/ordered.yaml'' = Some (Inr result)
      \<and> cfg_rules result = Some rules
      \<and> rules ''rule1'' = Some (Flag True) \<and> rules ''rule2'' = Some (Flag False)
      \<and> rules ''rule3'' = Some (Flag True) \<and> rules ''rule4'' = Some (Flag True)
      \<and> cfg_defaultSeverity result = Some WARNING)
   \<and> resolveEntry (resolveExtends (Suc 0) chainFiles chainResolve) chainFiles chainResolve
       ''/cfg/middle.yaml'' ''./base.yaml'' = Some (Inr (Some baseConfig))"
proof -
  let ?mid = "mergeConfigs (mergeConfigs DEFAULT_CONFIG baseConfig) middleConfig"
  let ?exts = "[''./middle.yaml'', ''spectral:oas'', ''./base.yaml'']"
  let ?rs = "[Some ?mid, None, Some baseConfig]"
  have e: "extendsArray (cfg_extends orderedConfig) = Some ?exts"
    by (simp add: orderedConfig_def emptyConfig_def extendsArray_def)
  have m: "map (resolveEntry (resolveExtends (Suc (Suc 0)) chainFiles chainResolve) chainFiles
                  chainResolve ''/cfg/ordered.yaml'') ?exts = map (\<lambda>r. Some (Inr r)) ?rs"
    by (simp add: entry_middle entry_spectral entry_base del: resolveExtends.simps)
  from resolveExtends_order [of orderedConfig ?exts "Suc (Suc 0)" chainFiles chainResolve
      "''/cfg/ordered.yaml''" ?rs, THEN conjunct1] e m
  obtain result rules where
    r: "resolveExtends (Suc (Suc (Suc 0))) chainFiles chainResolve orderedConfig
          ''/cfg/ordered.yaml'' = Some (Inr result)"
    and eq: "result = mergeConfigs (foldl mergeConfigs DEFAULT_CONFIG (present ?rs)) orderedConfig"
    and cr: "cfg_rules result = Some rules"
    and rules: "rules = foldl (++) Map.empty
                  (map (\<lambda>c. spread (cfg_rules c)) (DEFAULT_CONFIG # present ?rs @ [orderedConfig]))"
    by blast
  have v: "rules ''rule1'' = Some (Flag True)" "rules ''rule2'' = Some (Flag False)"
    "rules ''rule3'' = Some (Flag True)" "rules ''rule4'' = Some (Flag True)"
    unfolding rules
    by (simp_all add: present_def mergeConfigs_def DEFAULT_CONFIG_def baseConfig_def
        middleConfig_def orderedConfig_def emptyConfig_def map_add_def)
  have s: "cfg_defaultSeverity result = Some WARNING"
    unfolding eq
    by (simp add: present_def mergeConfigs_def DEFAULT_CONFIG_def baseConfig_def
        middleConfig_def orderedConfig_def emptyConfig_def)
  have f: "isFileReference ''./base.yaml''
           \<and> chainFiles (chainResolve ''/cfg/middle.yaml'' ''./base.yaml'') = Inr baseConfig"
    by (simp add: isFileReference_def chainResolve_def chainFiles_def)
  have b: "resolveEntry (resolveExtends (Suc 0) chainFiles chainResolve) chainFiles chainResolve
       ''/cfg/middle.yaml'' ''./base.yaml'' = Some (Inr (Some baseConfig))"
    using resolveExtends_order [of _ _ _ chainFiles chainResolve "''/cfg/middle.yaml''" _
        "''./base.yaml''" baseConfig "resolveExtends (Suc 0) chainFiles chainResolve",
        THEN conjunct2, THEN conjunct1] f
    by (simp add: chainResolve_def chain_base del: resolveExtends.simps)
  from r cr v s b show ?thesis by blast
qed


text \<open>
  The fuel only bounds the depth of the recursion: a result obtained with some fuel is the
  result with any larger fuel.
\<close>

lemma extendsLoop_mono:
  assumes "\<And>ext y. entry1 ext = Some y \<Longrightarrow> entry2 ext = Some y"
  shows "extendsLoop entry1 merged exts = Some x \<Longrightarrow> extendsLoop entry2 merged exts = Some x"
proof (induction exts arbitrary: merged)
  case Nil
  then show ?case by simp
next
  case (Cons ext exts)
  show ?case
  proof (cases "entry1 ext")
    case None
    with Cons.prems show ?thesis by simp
  next
    case (Some y)
    then have "entry2 ext = Some y" by (rule assms)
    with Some Cons show ?thesis by (auto split: sum.splits option.splits)
  qed
qed

lemma resolveEntry_mono:
  assumes "\<And>c p y. recur1 c p = Some y \<Longrightarrow> recur2 c p = Some y"
  shows "resolveEntry recur1 loadConfig resolvePath basePath ext = Some y \<Longrightarrow>
         resolveEntry recur2 loadConfig resolvePath basePath ext = Some y"
proof (cases "isFileReference ext")
  case False
  then show "resolveEntry recur1 loadConfig resolvePath basePath ext = Some y \<Longrightarrow>
         resolveEntry recur2 loadConfig resolvePath basePath ext = Some y"
    by (simp add: resolveEntry_def)
next
  case True
  assume a: "resolveEntry recur1 loadConfig resolvePath basePath ext = Some y"
  show "resolveEntry recur2 loadConfig resolvePath basePath ext = Some y"
  proof (cases "loadConfig (resolvePath basePath ext)")
    case (Inl e)
    with True a show ?thesis by (simp add: resolveEntry_def)
  next
    case (Inr loaded)
    show ?thesis
    proof (cases "recur1 loaded (resolvePath basePath ext)")
      case None
      with True Inr a show ?thesis by (simp add: resolveEntry_def)
    next
      case (Some z)
      then have "recur2 loaded (resolvePath basePath ext) = Some z" by (rule assms)
      with True Inr a Some show ?thesis by (simp add: resolveEntry_def)
    qed
  qed
qed

lemma resolveExtends_more_fuel:
  "resolveExtends n loadConfig resolvePath config basePath = Some y \<Longrightarrow>
   resolveExtends (Suc n) loadConfig resolvePath config basePath = Some y"
proof (induction n arbitrary: config basePath y)
  case 0
  then show ?case by simp
next
  case (Suc n)
  show ?case
  proof (cases "extendsArray (cfg_extends config)")
    case None
    with Suc.prems show ?thesis by simp
  next
    case (Some exts)
    let ?e1 = "resolveEntry (resolveExtends n loadConfig resolvePath) loadConfig resolvePath basePath"
    let ?e2 = "resolveEntry (resolveExtends (Suc n) loadConfig resolvePath) loadConfig resolvePath
                 basePath"
    have step: "\<And>ext z. ?e1 ext = Some z \<Longrightarrow> ?e2 ext = Some z"
      using resolveEntry_mono [of "resolveExtends n loadConfig resolvePath"
          "resolveExtends (Suc n) loadConfig resolvePath"] Suc.IH
      by blast
    obtain x where x: "extendsLoop ?e1 DEFAULT_CONFIG exts = Some x"
      using Suc.prems Some by (auto split: option.splits)
    have x2: "extendsLoop ?e2 DEFAULT_CONFIG exts = Some x"
      using extendsLoop_mono [of ?e1 ?e2, OF step x] .
    have "resolveExtends (Suc (Suc n)) loadConfig resolvePath config basePath =
            (case Some x of None \<Rightarrow> None | Some (Inl e) \<Rightarrow> Some (Inl e)
             | Some (Inr merged) \<Rightarrow> Some (Inr (mergeConfigs merged config)))"
      by (subst resolveExtends.simps(2)) (simp only: Some x2 option.case)
    moreover have "resolveExtends (Suc n) loadConfig resolvePath config basePath =
            (case Some x of None \<Rightarrow> None | Some (Inl e) \<Rightarrow> Some (Inl e)
             | Some (Inr merged) \<Rightarrow> Some (Inr (mergeConfigs merged config)))"
      by (subst resolveExtends.simps(2)) (simp only: Some x option.case)
    ultimately show ?thesis using Suc.prems by simp
  qed
qed

lemma resolveExtends_fuel_independent:
  "resolveExtends n loadConfig resolvePath config basePath = Some y \<Longrightarrow>
   resolveExtends (n + k) loadConfig resolvePath config basePath = Some y"
proof (induction k)
  case 0
  then show ?case by simp
next
  case (Suc k)
  then show ?case using resolveExtends_more_fuel [of "n + k"] by (simp del: resolveExtends.simps)
qed

section \<open>Namespaced extends entries\<close>

text \<open>
  An entry \<open>ns:name\<close> without a path separator is split at the colon.  In the namespaces
  \<open>api-guardian\<close> and \<open>preset\<close> the name is looked up with \<^verbatim>\<open>getPresetRuleset\<close>; a name
  that the lookup does not find throws the error that lists the three presets; a
  \<open>spectral\<close> entry is skipped; any other namespace throws.  The lookup finds the three
  presets, and it also finds every name that the table inherits from \<^verbatim>\<open>Object.prototype\<close>.
\<close>

lemma splitOn_no_separator: "c \<notin> set s \<Longrightarrow> splitOn c s = [s]"
  by (induction s) auto

lemma splitOn_at_separator:
  "c \<notin> set a \<Longrightarrow> splitOn c (a @ c # rest) = a # splitOn c rest"
  by (induction a) auto

lemma splitOn_not_empty: "splitOn c s \<noteq> []"
  by (induction s) (auto split: list.splits)

lemma namespace_and_name:
  assumes "CHR '':'' \<notin> set ns" and "CHR '':'' \<notin> set name"
  shows "arrayAt (splitOn (CHR '':'') (ns @ '':'' @ name)) 0 = Some ns"
    and "arrayAt (splitOn (CHR '':'') (ns @ '':'' @ name)) 1 = Some name"
  using assms by (simp_all add: splitOn_at_separator splitOn_no_separator arrayAt_def)

lemma getPresetRuleset_table:
  "getPresetRuleset ''strict'' = Some (Ruleset STRICT_RULESET)"
  "getPresetRuleset ''standard'' = Some (Ruleset STANDARD_RULESET)"
  "getPresetRuleset ''lenient'' = Some (Ruleset LENIENT_RULESET)"
  by (simp_all add: getPresetRuleset_def presetTable_def)

lemma getPresetRuleset_None_iff:
  "getPresetRuleset level = None \<longleftrightarrow>
     level \<notin> {''strict'', ''standard'', ''lenient''} \<and> level \<notin> set objectPrototypeKeys"
  by (auto simp add: getPresetRuleset_def presetTable_def split: option.splits if_splits)

lemma map_fst_presetTable: "map fst presetTable = [''strict'', ''standard'', ''lenient'']"
  by (simp add: presetTable_def)

lemma preset_entry:
  assumes ns: "ns = ''api-guardian'' \<or> ns = ''preset''"
    and name: "CHR '':'' \<notin> set name" "\<not> isFileReference name"
  shows "resolveEntry recur loadConfig resolvePath basePath (ns @ '':'' @ name) =
           (case getPresetRuleset name of
              None \<Rightarrow> Some (Inl (unknownPresetError (ns @ '':'' @ name)))
            | Some ruleset \<Rightarrow>
                Some (Inr (Some (emptyConfig\<lparr>cfg_rulesets := Some (map_of [(name, ruleset)])\<rparr>))))"
proof -
  have c: "CHR '':'' \<notin> set ns" using ns by auto
  have f: "\<not> isFileReference (ns @ '':'' @ name)"
    using ns name(2) by (auto simp add: isFileReference_def)
  show ?thesis
    using ns namespace_and_name [OF c name(1)] f
    by (auto simp add: resolveEntry_def Let_def toText_def split: option.splits)
qed

lemma unknown_preset_entry:
  assumes "ns = ''api-guardian'' \<or> ns = ''preset''"
    and "CHR '':'' \<notin> set name" "\<not> isFileReference name"
    and "name \<notin> {''strict'', ''standard'', ''lenient''}" "name \<notin> set objectPrototypeKeys"
  shows "resolveEntry recur loadConfig resolvePath basePath (ns @ '':'' @ name) =
           Some (Inl (unknownPresetError (ns @ '':'' @ name)))"
    and "ce_suggestion (unknownPresetError (ns @ '':'' @ name)) =
           Some ''Use one of: api-guardian:strict, api-guardian:standard, api-guardian:lenient''"
proof -
  have "getPresetRuleset name = None"
    using assms(4,5) by (simp add: getPresetRuleset_None_iff)
  then show "resolveEntry recur loadConfig resolvePath basePath (ns @ '':'' @ name) =
           Some (Inl (unknownPresetError (ns @ '':'' @ name)))"
    using preset_entry [OF assms(1,2,3)] by simp
  show "ce_suggestion (unknownPresetError (ns @ '':'' @ name)) =
           Some ''Use one of: api-guardian:strict, api-guardian:standard, api-guardian:lenient''"
    by (simp add: unknownPresetError_def)
qed

lemma missing_preset_name_entry:
  assumes "ns = ''api-guardian'' \<or> ns = ''preset''"
  shows "resolveEntry recur loadConfig resolvePath basePath ns = Some (Inl (unknownPresetError ns))"
proof -
  have "splitOn (CHR '':'') ns = [ns]" "\<not> isFileReference ns"
    using assms by (auto simp add: isFileReference_def)
  then show ?thesis
    using assms
    by (auto simp add: resolveEntry_def Let_def arrayAt_def toText_def getPresetRuleset_def
        presetTable_def objectPrototypeKeys_def)
qed

lemma spectral_entry:
  assumes "CHR '':'' \<notin> set name" "\<not> isFileReference name"
  shows "resolveEntry recur loadConfig resolvePath basePath (''spectral:'' @ name) =
           Some (Inr None)"
proof -
  have f: "\<not> isFileReference (''spectral'' @ '':'' @ name)"
    using assms(2) by (auto simp add: isFileReference_def)
  have "arrayAt (splitOn (CHR '':'') (''spectral'' @ '':'' @ name)) 0 = Some ''spectral''"
    using namespace_and_name(1) [of "''spectral''" name] assms(1) by simp
  then show ?thesis using f by (simp add: resolveEntry_def Let_def)
qed

lemma unknown_namespace_entry:
  assumes "ns \<notin> {''api-guardian'', ''preset'', ''spectral''}"
    and "CHR '':'' \<notin> set ns" "CHR '':'' \<notin> set name"
    and "\<not> isFileReference (ns @ '':'' @ name)"
  shows "resolveEntry recur loadConfig resolvePath basePath (ns @ '':'' @ name) =
           Some (Inl (unknownNamespaceError (Some ns) (ns @ '':'' @ name)))"
  using assms namespace_and_name(1) [OF assms(2,3)]
  by (auto simp add: resolveEntry_def Let_def)

lemma extends_failure_propagates:
  assumes "extendsArray (cfg_extends config) = Some (pre @ ext # post)"
    and "map (resolveEntry (resolveExtends n loadConfig resolvePath) loadConfig resolvePath
                basePath) pre = map (\<lambda>r. Some (Inr r)) rs"
    and "resolveEntry (resolveExtends n loadConfig resolvePath) loadConfig resolvePath basePath
           ext = Some (Inl e)"
  shows "resolveExtends (Suc n) loadConfig resolvePath config basePath = Some (Inl e)"
  using assms(1) extendsLoop_failure [OF assms(2,3)] by (simp del: extendsLoop.simps)

text \<open>
  C9 at the entry \<open>api-guardian:constructor\<close>.  The name \<open>constructor\<close> is not one of the
  three presets, yet \<^verbatim>\<open>getPresetRuleset\<close> returns a value for it (the inherited member),
  so \<^verbatim>\<open>resolveExtends\<close> throws no configuration error: it returns a configuration whose
  \<open>rulesets\<close> holds that member under the key \<open>constructor\<close>.
\<close>

theorem inherited_name_accepted_as_preset:
  "''constructor'' \<notin> set (map fst presetTable)
   \<and> getPresetRuleset ''constructor'' = Some (PrototypeMember ''constructor'')
   \<and> resolveExtends (Suc n) loadConfig resolvePath
       (emptyConfig\<lparr>cfg_extends := Some (Several [''api-guardian:constructor''])\<rparr>) basePath =
       Some (Inr (mergeConfigs
                    (mergeConfigs DEFAULT_CONFIG
                       (emptyConfig\<lparr>cfg_rulesets :=
                          Some (map_of [(''constructor'', PrototypeMember ''constructor'')])\<rparr>))
                    (emptyConfig\<lparr>cfg_extends := Some (Several [''api-guardian:constructor''])\<rparr>)))"
proof -
  have g: "getPresetRuleset ''constructor'' = Some (PrototypeMember ''constructor'')"
    by (simp add: getPresetRuleset_def presetTable_def objectPrototypeKeys_def)
  have e: "resolveEntry recur loadConfig resolvePath basePath ''api-guardian:constructor'' =
             Some (Inr (Some (emptyConfig\<lparr>cfg_rulesets :=
                          Some (map_of [(''constructor'', PrototypeMember ''constructor'')])\<rparr>)))"
    for recur
    using preset_entry [of "''api-guardian''" "''constructor''" recur loadConfig resolvePath
        basePath] g
    by (simp add: isFileReference_def)
  have x: "extendsArray (Some (Several [''api-guardian:constructor''])) =
           Some [''api-guardian:constructor'']"
    by (simp add: extendsArray_def)
  show ?thesis
    using g by (simp add: x e map_fst_presetTable)
qed

theorem inherited_name_accepted_as_preset_witness:
  "resolveExtends (Suc 0) chainFiles chainResolve
       (emptyConfig\<lparr>cfg_extends := Some (Several [''api-guardian:constructor''])\<rparr>)
       ''/cfg/top.yaml'' =
       Some (Inr (mergeConfigs
                    (mergeConfigs DEFAULT_CONFIG
                       (emptyConfig\<lparr>cfg_rulesets :=
                          Some (map_of [(''constructor'', PrototypeMember ''constructor'')])\<rparr>))
                    (emptyConfig\<lparr>cfg_extends := Some (Several [''api-guardian:constructor''])\<rparr>)))"
  using inherited_name_accepted_as_preset [of 0 chainFiles chainResolve "''/cfg/top.yaml''"]
  by blast

section \<open>The orchestrator\<close>

lemma validate_load_throws:
  "load specPath = Inl message \<Longrightarrow>
     validate v load specPath d =
       \<lparr>vr_spec = None, vr_valid = False, vr_issues = [],
        vr_stats = \<lparr>run_rulesExecuted = 0, run_issuesFound = 0\<rparr>,
        vr_metadata = \<lparr>md_configPath = (case v_config v of Some c \<Rightarrow> Some ''provided''
                                          | None \<Rightarrow> None),
                       md_ruleCount = getCount (v_registry v),
                       md_warnings = None, md_error = Some message\<rparr>\<rparr>"
  by (simp add: validate_def Let_def)

lemma validate_load_unsuccessful:
  "load specPath = Inr loadResult \<Longrightarrow> \<not> ls_success loadResult \<Longrightarrow>
     validate v load specPath d =
       \<lparr>vr_spec = None, vr_valid = False, vr_issues = [],
        vr_stats = \<lparr>run_rulesExecuted = 0, run_issuesFound = 0\<rparr>,
        vr_metadata = \<lparr>md_configPath = (case v_config v of Some c \<Rightarrow> Some ''provided''
                                          | None \<Rightarrow> None),
                       md_ruleCount = getCount (v_registry v),
                       md_warnings = ls_warnings loadResult,
                       md_error = ls_error loadResult\<rparr>\<rparr>"
  by (simp add: validate_def Let_def)

lemma validate_loaded:
  assumes "load specPath = Inr loadResult" and "ls_success loadResult"
  shows "vr_spec (validate v load specPath d) = Some (ls_spec loadResult)"
    and "vr_issues (validate v load specPath d) =
           fst (executeAll (v_registry v) (ls_spec loadResult)
                  (Some (filter (isEnabled (v_registry v)) (getAllIds (v_registry v))))
                  (Some (case d of Some s \<Rightarrow> s | None \<Rightarrow> WARNING)))"
    and "vr_valid (validate v load specPath d) \<longleftrightarrow>
           length (filter (\<lambda>i. issue_severity i = JStr ''error'')
                     (vr_issues (validate v load specPath d))) = 0"
    and "md_error (vr_metadata (validate v load specPath d)) = None"
  using assms by (simp_all add: validate_def Let_def split: prod.splits)

text \<open>
  C8.  \<^verbatim>\<open>validate\<close> returns a result for every path (the model is a total function in
  which a throw of the loader is a case of its own, the \<^verbatim>\<open>catch\<close> branch).  When the
  load fails, by a throw or by a result with \<open>success = false\<close>, the result is complete:
  \<open>spec\<close> is \<^verbatim>\<open>null\<close>, \<open>valid\<close> is false, there are no issues, the statistics are
  zero, and \<open>metadata.error\<close> is the thrown message, respectively the loader's \<open>error\<close>.
  When the document is loaded, the issues are those of \<^verbatim>\<open>executeAll\<close> over the enabled
  rule ids, and \<open>valid\<close> is true exactly when no issue has severity \<open>error\<close>.
\<close>

theorem validate_reports:
  assumes "result = validate v load specPath d"
  shows "(load specPath = Inl message \<longrightarrow>
            result =
              \<lparr>vr_spec = None, vr_valid = False, vr_issues = [],
               vr_stats = \<lparr>run_rulesExecuted = 0, run_issuesFound = 0\<rparr>,
               vr_metadata = \<lparr>md_configPath = (case v_config v of Some c \<Rightarrow> Some ''provided''
                                                 | None \<Rightarrow> None),
                              md_ruleCount = getCount (v_registry v),
                              md_warnings = None, md_error = Some message\<rparr>\<rparr>)
       \<and> (load specPath = Inr loadResult \<and> \<not> ls_success loadResult \<longrightarrow>
            result =
              \<lparr>vr_spec = None, vr_valid = False, vr_issues = [],
               vr_stats = \<lparr>run_rulesExecuted = 0, run_issuesFound = 0\<rparr>,
               vr_metadata = \<lparr>md_configPath = (case v_config v of Some c \<Rightarrow> Some ''provided''
                                                 | None \<Rightarrow> None),
                              md_ruleCount = getCount (v_registry v),
                              md_warnings = ls_warnings loadResult,
                              md_error = ls_error loadResult\<rparr>\<rparr>)
       \<and> (load specPath = Inr loadResult \<and> ls_success loadResult \<longrightarrow>
            vr_spec result = Some (ls_spec loadResult)
          \<and> vr_issues result =
              fst (executeAll (v_registry v) (ls_spec loadResult)
                     (Some (filter (isEnabled (v_registry v)) (getAllIds (v_registry v))))
                     (Some (case d of Some s \<Rightarrow> s | None \<Rightarrow> WARNING)))
          \<and> (vr_valid result \<longleftrightarrow>
                length (filter (\<lambda>i. issue_severity i = JStr ''error'') (vr_issues result)) = 0)
          \<and> md_error (vr_metadata result) = None)"
  unfolding assms
  using validate_load_throws [of load specPath message v d]
    validate_load_unsuccessful [of load specPath loadResult v d]
    validate_loaded [of load specPath loadResult v d]
  by blast


lemma lenient_registry:
  "reg_rules (v_registry lenientValidator) =
     [(''r-throw'', throwingRule), (''r-report'', reportingRule)]"
  "reg_overrides (v_registry lenientValidator) = [''r-report'' \<mapsto> warningOnly]"
  by (simp_all add: lenientValidator_def reg_rules_applyOverrides exampleRegistry_rules
      reg_overrides_applyOverrides_single exampleRegistry_overrides storedOverride_def)

lemma lenient_effective:
  "getEffectiveRule (v_registry lenientValidator) ''r-throw'' d = Some throwingRule"
  "getEffectiveRule (v_registry lenientValidator) ''r-report'' d =
     Some (reportingRule\<lparr>rule_enabled := Some True, rule_severity := WARNING,
                          rule_options := Some (spread (rule_options reportingRule))\<rparr>)"
  by (simp_all add: getEffectiveRule_def lenient_registry warningOnly_def reportingRule_def
      spread_def)

lemma lenient_enabled:
  "isEnabled (v_registry lenientValidator) ''r-throw''"
  "isEnabled (v_registry lenientValidator) ''r-report''"
  by (simp_all add: isEnabled_def lenient_effective throwingRule_def)

lemma lenient_severities:
  "map issue_severity
     (fst (executeAll (v_registry lenientValidator) spec (Some [''r-throw'', ''r-report''])
             (Some WARNING))) = [JStr ''warning'']"
proof -
  note en = lenient_enabled
  have g: "get_rule (v_registry lenientValidator) ''r-throw'' = Some throwingRule"
    "get_rule (v_registry lenientValidator) ''r-report'' = Some reportingRule"
    by (simp_all add: get_rule_def lenient_registry)
  have t: "fst (executeRule (v_registry lenientValidator) ''r-throw'' spec (Some WARNING)) = []"
    by (simp add: executeRule_def Let_def g en lenient_effective)
       (simp add: throwingRule_def)
  have r: "map issue_severity
             (fst (executeRule (v_registry lenientValidator) ''r-report'' spec (Some WARNING)))
           = [JStr ''warning'']"
    by (simp add: executeRule_def Let_def g en lenient_effective)
       (simp add: reportingRule_def normalizeResults_def normalizeResult_def js_or_def)
  show ?thesis by (simp add: executeAll_eq t r)
qed

lemma example_severities:
  "map issue_severity
     (fst (executeAll exampleRegistry spec (Some [''r-throw'', ''r-report'']) (Some WARNING)))
     = [JStr ''error'']"
  by (simp add: executeAll_eq executeRule_reporting)
     (simp add: executeRule_def get_rule_example isEnabled_example getEffectiveRule_example
      throwingRule_def)

lemma enabled_ids:
  "filter (isEnabled exampleRegistry) (getAllIds exampleRegistry) = [''r-throw'', ''r-report'']"
  "filter (isEnabled (v_registry lenientValidator)) (getAllIds (v_registry lenientValidator))
     = [''r-throw'', ''r-report'']"
  by (simp_all add: getAllIds_def exampleRegistry_rules isEnabled_example lenient_registry
      lenient_enabled)

lemma count_by_severity:
  "length (filter (\<lambda>i. issue_severity i = s) xs) = length (filter (\<lambda>v. v = s) (map issue_severity xs))"
  by (induction xs) simp_all

theorem validate_reports_witness:
  "validate exampleValidator exampleLoad ''missing.yaml'' None =
     \<lparr>vr_spec = None, vr_valid = False, vr_issues = [],
      vr_stats = \<lparr>run_rulesExecuted = 0, run_issuesFound = 0\<rparr>,
      vr_metadata = \<lparr>md_configPath = None, md_ruleCount = 2, md_warnings = None,
                     md_error = Some ''Spec file not found: missing.yaml''\<rparr>\<rparr>
   \<and> validate exampleValidator exampleLoad ''broken.yaml'' None =
     \<lparr>vr_spec = None, vr_valid = False, vr_issues = [],
      vr_stats = \<lparr>run_rulesExecuted = 0, run_issuesFound = 0\<rparr>,
      vr_metadata = \<lparr>md_configPath = None, md_ruleCount = 2, md_warnings = Some [''no paths''],
                     md_error = Some ''Invalid OpenAPI spec''\<rparr>\<rparr>
   \<and> \<not> vr_valid (validate exampleValidator exampleLoad ''openapi.yaml'' None)
   \<and> map issue_severity (vr_issues (validate exampleValidator exampleLoad ''openapi.yaml'' None))
       = [JStr ''error'']
   \<and> vr_valid (validate lenientValidator exampleLoad ''openapi.yaml'' None)
   \<and> map issue_severity (vr_issues (validate lenientValidator exampleLoad ''openapi.yaml'' None))
       = [JStr ''warning'']"
proof -
  let ?ok = "\<lparr>ls_spec = JObj [(''openapi'', JStr ''3.0.3''),
                            (''info'', JObj [(''title'', JStr ''Test API'')])],
             ls_warnings = None, ls_success = True, ls_error = None\<rparr>"
  let ?bad = "\<lparr>ls_spec = JNull, ls_warnings = Some [''no paths''], ls_success = False,
             ls_error = Some ''Invalid OpenAPI spec''\<rparr>"
  have l1: "exampleLoad ''missing.yaml'' = Inl ''Spec file not found: missing.yaml''"
    and l2: "exampleLoad ''broken.yaml'' = Inr ?bad \<and> \<not> ls_success ?bad"
    and l3: "exampleLoad ''openapi.yaml'' = Inr ?ok \<and> ls_success ?ok"
    by (simp_all add: exampleLoad_def)
  have cnt: "getCount (v_registry exampleValidator) = 2" "v_config exampleValidator = None"
    by (simp_all add: exampleValidator_def getCount_def exampleRegistry_rules)
  have a: "validate exampleValidator exampleLoad ''missing.yaml'' None =
     \<lparr>vr_spec = None, vr_valid = False, vr_issues = [],
      vr_stats = \<lparr>run_rulesExecuted = 0, run_issuesFound = 0\<rparr>,
      vr_metadata = \<lparr>md_configPath = None, md_ruleCount = 2, md_warnings = None,
                     md_error = Some ''Spec file not found: missing.yaml''\<rparr>\<rparr>"
    using validate_reports [OF refl, of exampleLoad "''missing.yaml''" _ exampleValidator None]
      l1 cnt by simp
  have b: "validate exampleValidator exampleLoad ''broken.yaml'' None =
     \<lparr>vr_spec = None, vr_valid = False, vr_issues = [],
      vr_stats = \<lparr>run_rulesExecuted = 0, run_issuesFound = 0\<rparr>,
      vr_metadata = \<lparr>md_configPath = None, md_ruleCount = 2, md_warnings = Some [''no paths''],
                     md_error = Some ''Invalid OpenAPI spec''\<rparr>\<rparr>"
    using validate_reports [OF refl, of exampleLoad "''broken.yaml''" _ exampleValidator None ?bad]
      l2 cnt by simp
  have c: "vr_issues (validate exampleValidator exampleLoad ''openapi.yaml'' None) =
              fst (executeAll exampleRegistry (ls_spec ?ok) (Some [''r-throw'', ''r-report''])
                     (Some WARNING))"
    and c': "vr_valid (validate exampleValidator exampleLoad ''openapi.yaml'' None) \<longleftrightarrow>
               length (filter (\<lambda>i. issue_severity i = JStr ''error'')
                         (vr_issues (validate exampleValidator exampleLoad ''openapi.yaml'' None)))
                 = 0"
    using validate_reports [OF refl, of exampleLoad "''openapi.yaml''" _ exampleValidator None ?ok]
      l3 enabled_ids(1) by (simp_all add: exampleValidator_def)
  have d: "vr_issues (validate lenientValidator exampleLoad ''openapi.yaml'' None) =
              fst (executeAll (v_registry lenientValidator) (ls_spec ?ok)
                     (Some [''r-throw'', ''r-report'']) (Some WARNING))"
    and d': "vr_valid (validate lenientValidator exampleLoad ''openapi.yaml'' None) \<longleftrightarrow>
               length (filter (\<lambda>i. issue_severity i = JStr ''error'')
                         (vr_issues (validate lenientValidator exampleLoad ''openapi.yaml'' None)))
                 = 0"
    using validate_reports [OF refl, of exampleLoad "''openapi.yaml''" _ lenientValidator None ?ok]
      l3 enabled_ids(2) by simp_all
  have e1: "map issue_severity
              (vr_issues (validate exampleValidator exampleLoad ''openapi.yaml'' None))
              = [JStr ''error'']"
    unfolding c by (rule example_severities)
  have e2: "map issue_severity
              (vr_issues (validate lenientValidator exampleLoad ''openapi.yaml'' None))
              = [JStr ''warning'']"
    unfolding d by (rule lenient_severities)
  have v1: "\<not> vr_valid (validate exampleValidator exampleLoad ''openapi.yaml'' None)"
    unfolding c' count_by_severity e1 by simp
  have v2: "vr_valid (validate lenientValidator exampleLoad ''openapi.yaml'' None)"
    unfolding d' count_by_severity e2 by simp
  from a b v1 e1 v2 e2 show ?thesis by blast
qed

end
